theory Spec2Isabelle
  imports Complex_Main
begin

section \<open>Weighted transducers as functions from an input string to its accepting paths\<close>

text \<open>
  The measure tagger (taggers/measure.py) is an expression over pynini's transducer
  algebra. A transducer is embedded by what it denotes: for a complete input string, the
  list of its accepting paths, each an output string with the total cost of the path
  (tropical semiring: costs add along a path, a union keeps the paths of both sides).
  Strings are lists of symbols; costs are rationals, so that the bias \<open>-0.001\<close> is exact.
\<close>

type_synonym weight = rat
type_synonym transducer = "string \<Rightarrow> (string \<times> weight) list"

text \<open>\<open>pynini.accep(x)\<close>: accepts exactly \<open>x\<close> and copies it.\<close>

definition accep :: "string \<Rightarrow> transducer" where
  "accep x s = (if s = x then [(x, 0)] else [])"

text \<open>\<open>pynini.cross(A, y)\<close>: the input language of \<open>A\<close>, every string of it mapped to \<open>y\<close>.
  A string argument on the input side is \<open>accep\<close> of it.\<close>

definition cross :: "transducer \<Rightarrow> string \<Rightarrow> transducer" where
  "cross A y s = map (\<lambda>(u, w). (y, w)) (A s)"

text \<open>\<open>pynutil.insert(y)\<close> is \<open>cross("", y)\<close>; \<open>pynutil.delete(A)\<close> is \<open>cross(A, "")\<close>.\<close>

definition insert_fst :: "string \<Rightarrow> transducer" where
  "insert_fst y = cross (accep []) y"

definition delete :: "transducer \<Rightarrow> transducer" where
  "delete A = cross A []"

text \<open>\<open>A | B\<close> (\<open>pynini.union\<close>).\<close>

definition union_fst :: "transducer \<Rightarrow> transducer \<Rightarrow> transducer" where
  "union_fst A B s = A s @ B s"

text \<open>Paths that follow one another: outputs are appended and costs added.\<close>

definition join :: "(string \<times> weight) list \<Rightarrow> (string \<times> weight) list \<Rightarrow> (string \<times> weight) list" where
  "join ps qs = concat (map (\<lambda>(y1, w1). map (\<lambda>(y2, w2). (y1 @ y2, w1 + w2)) qs) ps)"

text \<open>\<open>A + B\<close> (concatenation): every split of the input into a part for \<open>A\<close> and a part
  for \<open>B\<close>.\<close>

definition concat_fst :: "transducer \<Rightarrow> transducer \<Rightarrow> transducer" where
  "concat_fst A B s = concat (map (\<lambda>n. join (A (take n s)) (B (drop n s))) [0..<Suc (length s)])"

text \<open>\<open>A @ B\<close> (\<open>pynini.compose\<close>): the output of \<open>A\<close> is the input of \<open>B\<close>.\<close>

definition compose :: "transducer \<Rightarrow> transducer \<Rightarrow> transducer" where
  "compose A B s = concat (map (\<lambda>(m, w1). map (\<lambda>(y, w2). (y, w1 + w2)) (B m)) (A s))"

text \<open>\<open>A - B\<close> (\<open>pynini.difference\<close>) for an acceptor \<open>A\<close> and an unweighted acceptor \<open>B\<close>.\<close>

definition difference :: "transducer \<Rightarrow> transducer \<Rightarrow> transducer" where
  "difference A B s = (if B s = [] then A s else [])"

text \<open>\<open>pynutil.add_weight(A, k)\<close>.\<close>

definition add_weight :: "transducer \<Rightarrow> weight \<Rightarrow> transducer" where
  "add_weight A k s = map (\<lambda>(y, w). (y, w + k)) (A s)"

text \<open>\<open>A.optimize()\<close> changes the automaton, not the weighted relation it denotes.\<close>

definition optimize :: "transducer \<Rightarrow> transducer" where
  "optimize A = A"

text \<open>\<open>pynini.string_file\<close> and \<open>pynini.string_map\<close>: a table of (input, output) pairs.\<close>

definition string_map :: "(string \<times> string) list \<Rightarrow> transducer" where
  "string_map tbl s = map (\<lambda>(x, y). (y, 0)) (filter (\<lambda>(x, y). x = s) tbl)"

text \<open>
  Kleene star. Every repetition takes a non-empty part of the input: the bodies the
  tagger closes over (a letter, a digit, a white-space symbol) read one symbol each.
\<close>

function star :: "transducer \<Rightarrow> transducer" where
  "star A s =
     (if s = [] then [([], 0)]
      else concat (map (\<lambda>n. join (A (take n s)) (star A (drop n s))) [1..<Suc (length s)]))"
  by pat_completeness auto
termination
  by (relation "measure (\<lambda>(A, s). length s)") auto

declare star.simps [simp del]

text \<open>\<open>A ** n\<close>: exactly \<open>n\<close> repetitions.\<close>

fun power_fst :: "transducer \<Rightarrow> nat \<Rightarrow> transducer" where
  "power_fst A 0 = accep []"
| "power_fst A (Suc n) = concat_fst A (power_fst A n)"

text \<open>Between zero and \<open>n\<close> repetitions.\<close>

fun upto_fst :: "transducer \<Rightarrow> nat \<Rightarrow> transducer" where
  "upto_fst A 0 = accep []"
| "upto_fst A (Suc n) = union_fst (accep []) (concat_fst A (upto_fst A n))"

text \<open>\<open>pynini.closure(A, lo, hi)\<close>; no upper bound is \<open>None\<close>. \<open>A ** (lo, hi)\<close> is
  \<open>closure A lo (Some hi)\<close>.\<close>

definition closure :: "transducer \<Rightarrow> nat \<Rightarrow> nat option \<Rightarrow> transducer" where
  "closure A lo hi =
     concat_fst (power_fst A lo) (case hi of None \<Rightarrow> star A | Some h \<Rightarrow> upto_fst A (h - lo))"

section \<open>The constants of graph\_utils\<close>

text \<open>
  Modelled from the spec: graph\_utils.py is imported by the tagger and is not among the
  sources. Its constants are the character classes the names say, the "lowercase-projection
  transducer" \<open>TO_LOWER\<close>, the "space-insert/delete combinators" and the "non-breaking
  separator" of the spec; \<open>add_tokens\<close> is the wrapper of section 4.4, which puts the
  field name and braces around the finished alternation.
\<close>

definition ascii_lowercase :: string where
  "ascii_lowercase = ''abcdefghijklmnopqrstuvwxyz''"

definition ascii_uppercase :: string where
  "ascii_uppercase = ''ABCDEFGHIJKLMNOPQRSTUVWXYZ''"

text \<open>A union of one-symbol acceptors.\<close>

definition char_class :: "char list \<Rightarrow> transducer" where
  "char_class cs s = (case s of [c] \<Rightarrow> if c \<in> set cs then [([c], 0)] else [] | _ \<Rightarrow> [])"

definition NEMO_CHAR :: transducer where
  "NEMO_CHAR s = (case s of [c] \<Rightarrow> [([c], 0)] | _ \<Rightarrow> [])"

definition NEMO_DIGIT :: transducer where
  "NEMO_DIGIT = char_class ''0123456789''"

definition NEMO_LOWER :: transducer where
  "NEMO_LOWER = char_class ascii_lowercase"

definition NEMO_UPPER :: transducer where
  "NEMO_UPPER = char_class ascii_uppercase"

definition NEMO_ALPHA :: transducer where
  "NEMO_ALPHA = union_fst NEMO_LOWER NEMO_UPPER"

definition NEMO_SPACE :: string where
  "NEMO_SPACE = '' ''"

definition NEMO_NON_BREAKING_SPACE :: string where
  "NEMO_NON_BREAKING_SPACE = [CHR 0xA0]"

definition NEMO_WHITE_SPACE :: transducer where
  "NEMO_WHITE_SPACE = char_class [CHR '' '', CHR 0x09, CHR 0x0A, CHR 0x0D, CHR 0xA0]"

definition NEMO_SIGMA :: transducer where
  "NEMO_SIGMA = closure NEMO_CHAR 0 None"

definition TO_LOWER :: transducer where
  "TO_LOWER = string_map (map (\<lambda>(x, y). ([x], [y])) (zip ascii_uppercase ascii_lowercase))"

definition delete_space :: transducer where
  "delete_space = delete (closure NEMO_WHITE_SPACE 0 None)"

definition insert_space :: transducer where
  "insert_space = insert_fst '' ''"

text \<open>The obligatory rewrite of every space to the non-breaking space, over any string.\<close>

definition space_to_nbsp :: "string \<Rightarrow> string" where
  "space_to_nbsp s = concat (map (\<lambda>c. if [c] = NEMO_SPACE then NEMO_NON_BREAKING_SPACE else [c]) s)"

definition rewrite_space :: transducer where
  "rewrite_space s = [(space_to_nbsp s, 0)]"

definition convert_space :: "transducer \<Rightarrow> transducer" where
  "convert_space A = compose A rewrite_space"

definition add_tokens :: "string \<Rightarrow> transducer \<Rightarrow> transducer" where
  "add_tokens name A = concat_fst (concat_fst (insert_fst (name @ '' { '')) A) (insert_fst '' }'')"

section \<open>The grammars the tagger is given\<close>

text \<open>
  The cardinal, decimal and fraction grammars are built elsewhere and handed to the
  tagger, which reads these fields of them. The data files, the plural mapping and the
  ordinal grammars are read or imported by the tagger; they are parameters here.
\<close>

record CardinalFst =
  graph :: transducer
  range_graph :: transducer
  graph_hundred_component_at_least_one_none_zero_digit :: transducer
  single_digits_graph :: transducer

record DecimalFst =
  final_graph_wo_negative :: transducer

record FractionFst =
  fraction_graph :: transducer

record resources =
  measurements_tsv :: "(string \<times> string) list"
  math_operations_tsv :: "(string \<times> string) list"
  states_tsv :: "(string \<times> string) list"
  address_words_formats :: transducer
  SINGULAR_TO_PLURAL :: transducer
  ordinal_tagger_graph :: transducer
  ordinal_verbalizer_graph :: transducer

text \<open>The lower-case letter of an upper-case letter, as \<open>TO_LOWER\<close> pairs them.\<close>

definition lower_char :: "char \<Rightarrow> char" where
  "lower_char c = (case map_of (zip ascii_uppercase ascii_lowercase) c of Some l \<Rightarrow> l | None \<Rightarrow> c)"

definition is_upper :: "char \<Rightarrow> bool" where
  "is_upper c \<longleftrightarrow> c \<in> set ascii_uppercase"

definition is_alpha :: "char \<Rightarrow> bool" where
  "is_alpha c \<longleftrightarrow> c \<in> set ascii_lowercase \<or> c \<in> set ascii_uppercase"

definition is_white_space :: "char \<Rightarrow> bool" where
  "is_white_space c \<longleftrightarrow> c \<in> set [CHR '' '', CHR 0x09, CHR 0x0A, CHR 0x0D, CHR 0xA0]"

definition is_digit :: "char \<Rightarrow> bool" where
  "is_digit c \<longleftrightarrow> c \<in> set ''0123456789''"

section \<open>MeasureFst\<close>

text \<open>The definitions follow \<open>MeasureFst.__init__\<close> line by line; a Python variable that is
  assigned twice has one definition for each assignment.\<close>

definition cardinal_graph :: "CardinalFst \<Rightarrow> bool \<Rightarrow> transducer" where
  "cardinal_graph cardinal deterministic =
     (if \<not> deterministic then union_fst (graph cardinal) (range_graph cardinal)
      else graph cardinal)"

text \<open>Line 67: the unit table as read from the file.\<close>

definition graph_unit_file :: "resources \<Rightarrow> transducer" where
  "graph_unit_file res = string_map (measurements_tsv res)"

text \<open>Line 68, the right-hand side of \<open>|=\<close>: the case-folded variant.\<close>

definition graph_unit_case :: "resources \<Rightarrow> transducer" where
  "graph_unit_case res =
     optimize (compose (concat_fst (closure TO_LOWER 1 None) (closure NEMO_ALPHA 0 None))
                       (graph_unit_file res))"

text \<open>Line 68: \<open>graph_unit\<close> after \<open>|=\<close>.\<close>

definition graph_unit_cased :: "resources \<Rightarrow> transducer" where
  "graph_unit_cased res = union_fst (graph_unit_file res) (graph_unit_case res)"

definition graph_unit_no_degrees :: "resources \<Rightarrow> transducer" where
  "graph_unit_no_degrees res =
     optimize (compose (graph_unit_cased res)
       (difference NEMO_SIGMA (union_fst (accep ''degree Celsius'') (accep ''degree Fahrenheit''))))"

definition graph_unit_plural :: "resources \<Rightarrow> transducer" where
  "graph_unit_plural res =
     optimize
      (union_fst
        (union_fst
          (convert_space (compose (graph_unit_no_degrees res) (SINGULAR_TO_PLURAL res)))
          (optimize (compose (compose (graph_unit_cased res) (accep ''degree Celsius''))
                             (cross (accep ''degree Celsius'') ''degrees Celsius''))))
        (optimize (compose (compose (graph_unit_cased res) (accep ''degree Fahrenheit''))
                           (cross (accep ''degree Fahrenheit'') ''degrees Fahrenheit''))))"

text \<open>Line 84: \<open>graph_unit\<close> from here on.\<close>

definition graph_unit :: "resources \<Rightarrow> transducer" where
  "graph_unit res = convert_space (graph_unit_cased res)"

definition optional_graph_negative :: transducer where
  \<open>optional_graph_negative =
     closure (concat_fst (insert_fst ''negative: '') (cross (accep ''-'') ''"true" '')) 0 (Some 1)\<close>

definition graph_unit2 :: "resources \<Rightarrow> transducer" where
  "graph_unit2 res =
     concat_fst (concat_fst (concat_fst (cross (accep ''/'') ''per'') delete_space)
                            (insert_fst NEMO_NON_BREAKING_SPACE))
                (graph_unit res)"

definition optional_graph_unit2 :: "resources \<Rightarrow> transducer" where
  "optional_graph_unit2 res =
     closure (concat_fst (concat_fst delete_space (insert_fst NEMO_NON_BREAKING_SPACE))
                         (graph_unit2 res)) 0 (Some 1)"

definition unit_plural :: "resources \<Rightarrow> transducer" where
  \<open>unit_plural res =
     concat_fst
       (concat_fst (insert_fst ''units: "'')
          (union_fst (concat_fst (graph_unit_plural res) (optional_graph_unit2 res))
                     (graph_unit2 res)))
       (insert_fst ''"'')\<close>

definition unit_singular :: "resources \<Rightarrow> transducer" where
  \<open>unit_singular res =
     concat_fst
       (concat_fst (insert_fst ''units: "'')
          (union_fst (concat_fst (graph_unit res) (optional_graph_unit2 res))
                     (graph_unit2 res)))
       (insert_fst ''"'')\<close>

definition subgraph_decimal :: "resources \<Rightarrow> DecimalFst \<Rightarrow> transducer" where
  \<open>subgraph_decimal res decimal =
     concat_fst (concat_fst (concat_fst (concat_fst (concat_fst
       (insert_fst ''decimal { '')
       optional_graph_negative)
       (final_graph_wo_negative decimal))
       delete_space)
       (insert_fst '' } ''))
       (unit_plural res)\<close>

text \<open>Lines 113 to 122: the first assignment of \<open>subgraph_cardinal\<close>.\<close>

definition subgraph_cardinal_plural :: "resources \<Rightarrow> CardinalFst \<Rightarrow> bool \<Rightarrow> transducer" where
  \<open>subgraph_cardinal_plural res cardinal deterministic =
     concat_fst (concat_fst (concat_fst (concat_fst (concat_fst (concat_fst (concat_fst
       (insert_fst ''cardinal { '')
       optional_graph_negative)
       (insert_fst ''integer: "''))
       (compose (difference NEMO_SIGMA (accep ''1'')) (cardinal_graph cardinal deterministic)))
       delete_space)
       (insert_fst ''"''))
       (insert_fst '' } ''))
       (unit_plural res)\<close>

text \<open>Lines 124 to 133: the right-hand side of \<open>|=\<close>.\<close>

definition subgraph_cardinal_singular :: "resources \<Rightarrow> transducer" where
  \<open>subgraph_cardinal_singular res =
     concat_fst (concat_fst (concat_fst (concat_fst (concat_fst (concat_fst (concat_fst
       (insert_fst ''cardinal { '')
       optional_graph_negative)
       (insert_fst ''integer: "''))
       (cross (accep ''1'') ''one''))
       delete_space)
       (insert_fst ''"''))
       (insert_fst '' } ''))
       (unit_singular res)\<close>

definition subgraph_cardinal :: "resources \<Rightarrow> CardinalFst \<Rightarrow> bool \<Rightarrow> transducer" where
  "subgraph_cardinal res cardinal deterministic =
     union_fst (subgraph_cardinal_plural res cardinal deterministic)
               (subgraph_cardinal_singular res)"

definition unit_graph :: "resources \<Rightarrow> transducer" where
  \<open>unit_graph res =
     concat_fst (concat_fst (concat_fst (concat_fst (concat_fst
       (insert_fst ''cardinal { integer: "-" } units: "'')
       (cross (union_fst (accep ''/'') (accep ''per'')) ''per''))
       delete_space)
       (insert_fst NEMO_NON_BREAKING_SPACE))
       (graph_unit res))
       (insert_fst ''" preserve_order: true'')\<close>

definition cardinal_dash_alpha :: "CardinalFst \<Rightarrow> bool \<Rightarrow> transducer" where
  \<open>cardinal_dash_alpha cardinal deterministic =
     concat_fst (concat_fst (concat_fst (concat_fst (concat_fst
       (insert_fst ''cardinal { integer: "'')
       (cardinal_graph cardinal deterministic))
       (accep ''-''))
       (insert_fst ''" } units: "''))
       (closure NEMO_ALPHA 1 None))
       (insert_fst ''"'')\<close>

definition alpha_dash_cardinal :: "CardinalFst \<Rightarrow> bool \<Rightarrow> transducer" where
  \<open>alpha_dash_cardinal cardinal deterministic =
     concat_fst (concat_fst (concat_fst (concat_fst (concat_fst (concat_fst
       (insert_fst ''units: "'')
       (closure NEMO_ALPHA 1 None))
       (accep ''-''))
       (insert_fst ''"''))
       (insert_fst '' cardinal { integer: "''))
       (cardinal_graph cardinal deterministic))
       (insert_fst ''" } preserve_order: true'')\<close>

definition decimal_dash_alpha :: "DecimalFst \<Rightarrow> transducer" where
  \<open>decimal_dash_alpha decimal =
     concat_fst (concat_fst (concat_fst (concat_fst (concat_fst
       (insert_fst ''decimal { '')
       (final_graph_wo_negative decimal))
       (cross (accep ''-'') []))
       (insert_fst '' } units: "''))
       (closure NEMO_ALPHA 1 None))
       (insert_fst ''"'')\<close>

definition decimal_times :: "DecimalFst \<Rightarrow> transducer" where
  \<open>decimal_times decimal =
     concat_fst (concat_fst (concat_fst (concat_fst
       (insert_fst ''decimal { '')
       (final_graph_wo_negative decimal))
       (insert_fst '' } units: "''))
       (cross (union_fst (accep ''x'') (accep ''X'')) ''x''))
       (insert_fst ''"'')\<close>

definition alpha_dash_decimal :: "DecimalFst \<Rightarrow> transducer" where
  \<open>alpha_dash_decimal decimal =
     concat_fst (concat_fst (concat_fst (concat_fst (concat_fst (concat_fst
       (insert_fst ''units: "'')
       (closure NEMO_ALPHA 1 None))
       (accep ''-''))
       (insert_fst ''"''))
       (insert_fst '' decimal { ''))
       (final_graph_wo_negative decimal))
       (insert_fst '' } preserve_order: true'')\<close>

definition subgraph_fraction :: "resources \<Rightarrow> FractionFst \<Rightarrow> transducer" where
  \<open>subgraph_fraction res fraction =
     concat_fst (concat_fst (concat_fst (concat_fst
       (insert_fst ''fraction { '')
       (fraction_graph fraction))
       delete_space)
       (insert_fst '' } ''))
       (unit_plural res)\<close>

text \<open>Lines 201 to 219.\<close>

definition math_operations :: "resources \<Rightarrow> transducer" where
  "math_operations res = string_map (math_operations_tsv res)"

definition delimiter :: transducer where
  "delimiter = union_fst (accep '' '') (insert_fst '' '')"

text \<open>Lines 204 to 214: the first assignment of \<open>math\<close>.\<close>

definition math_equation :: "resources \<Rightarrow> CardinalFst \<Rightarrow> bool \<Rightarrow> transducer" where
  "math_equation res cardinal deterministic =
     concat_fst (concat_fst (concat_fst (concat_fst (concat_fst (concat_fst (concat_fst (concat_fst
       (union_fst (cardinal_graph cardinal deterministic) NEMO_ALPHA)
       delimiter)
       (math_operations res))
       (union_fst delimiter NEMO_ALPHA))
       (cardinal_graph cardinal deterministic))
       delimiter)
       (cross (accep ''='') ''equals''))
       delimiter)
       (union_fst (cardinal_graph cardinal deterministic) NEMO_ALPHA)"

definition math :: "resources \<Rightarrow> CardinalFst \<Rightarrow> bool \<Rightarrow> transducer" where
  \<open>math res cardinal deterministic =
     concat_fst (concat_fst
       (insert_fst ''units: "math" cardinal { integer: "'')
       (math_equation res cardinal deterministic))
       (insert_fst ''" } preserve_order: true'')\<close>

section \<open>get\_address\_graph\<close>

definition ordinal_num :: "resources \<Rightarrow> transducer" where
  \<open>ordinal_num res =
     compose (concat_fst (concat_fst (insert_fst ''integer: "'') (ordinal_tagger_graph res))
                         (insert_fst ''"''))
             (ordinal_verbalizer_graph res)\<close>

text \<open>Line 252: the first assignment of \<open>address_num\<close>.\<close>

definition address_num_prefix :: "CardinalFst \<Rightarrow> transducer" where
  "address_num_prefix cardinal =
     compose (closure NEMO_DIGIT 1 (Some 2))
             (graph_hundred_component_at_least_one_none_zero_digit cardinal)"

text \<open>Lines 253 to 256: \<open>address_num\<close> after \<open>+=\<close>.\<close>

definition address_num_split :: "CardinalFst \<Rightarrow> transducer" where
  "address_num_split cardinal =
     concat_fst (address_num_prefix cardinal)
       (concat_fst insert_space
          (compose (closure NEMO_DIGIT 2 (Some 2))
             (concat_fst (closure (cross (accep ''0'') ''zero '') 0 (Some 1))
                         (graph_hundred_component_at_least_one_none_zero_digit cardinal))))"

text \<open>Line 258.\<close>

definition address_num_biased :: "CardinalFst \<Rightarrow> transducer" where
  "address_num_biased cardinal =
     add_weight (compose (closure NEMO_DIGIT 3 (Some 4)) (address_num_split cardinal)) (- (1 / 1000))"

text \<open>Line 259: \<open>address_num\<close> from here on.\<close>

definition address_num :: "CardinalFst \<Rightarrow> transducer" where
  "address_num cardinal = union_fst (address_num_biased cardinal) (graph cardinal)"

definition direction_word :: transducer where
  "direction_word =
     concat_fst
       (union_fst (union_fst (union_fst (cross (accep ''E'') ''East'') (cross (accep ''S'') ''South''))
                             (cross (accep ''W'') ''West''))
                  (cross (accep ''N'') ''North''))
       (closure (delete (accep ''.'')) 0 (Some 1))"

definition direction :: transducer where
  "direction = closure (add_weight (concat_fst (accep NEMO_SPACE) direction_word) (- 1)) 0 (Some 1)"

definition address_words :: "resources \<Rightarrow> transducer" where
  "address_words res =
     concat_fst (concat_fst (concat_fst (concat_fst
       (accep NEMO_SPACE)
       (union_fst (closure (ordinal_num res) 0 (Some 1)) (closure NEMO_ALPHA 1 None)))
       (accep NEMO_SPACE))
       (closure (union_fst NEMO_ALPHA (accep NEMO_SPACE)) 0 None))
       (address_words_formats res)"

definition city :: transducer where
  "city =
     closure (concat_fst (concat_fst (accep '','') (accep NEMO_SPACE))
                         (closure (union_fst NEMO_ALPHA (accep NEMO_SPACE)) 1 None)) 0 (Some 1)"

text \<open>Lines 283 to 286: every state name also with a period after its first letter.
  \<open>y[0]\<close> raises on an empty name.\<close>

fun additional_option :: "string \<times> string \<Rightarrow> (string \<times> string) option" where
  "additional_option (x, []) = None"
| "additional_option (x, c # cs) = Some (x, c # CHR ''.'' # cs)"

definition extended_states :: "(string \<times> string) list \<Rightarrow> (string \<times> string) list option" where
  "extended_states states = map_option (\<lambda>opts. states @ opts) (those (map additional_option states))"

text \<open>\<open>pynini.invert\<close> of a string map swaps the columns.\<close>

definition invert_string_map :: "(string \<times> string) list \<Rightarrow> transducer" where
  "invert_string_map tbl = string_map (map (\<lambda>(x, y). (y, x)) tbl)"

definition state :: "(string \<times> string) list \<Rightarrow> transducer" where
  "state states =
     closure (concat_fst (concat_fst (accep '','') (accep NEMO_SPACE)) (invert_string_map states))
             0 (Some 1)"

definition zip_code :: "CardinalFst \<Rightarrow> transducer" where
  "zip_code cardinal =
     closure (add_weight
                (concat_fst (concat_fst (closure (accep '','') 0 (Some 1)) (accep NEMO_SPACE))
                            (compose (closure NEMO_DIGIT 5 (Some 5)) (single_digits_graph cardinal)))
                (- 100))
             0 (Some 1)"

definition address_strict :: "resources \<Rightarrow> CardinalFst \<Rightarrow> (string \<times> string) list \<Rightarrow> transducer" where
  "address_strict res cardinal states =
     concat_fst (concat_fst (concat_fst
       (address_num cardinal)
       direction)
       (address_words res))
       (closure (add_weight (concat_fst (concat_fst city (state states)) (zip_code cardinal))
                            (- (1 / 1000))) 0 (Some 1))"

definition address_lm :: "resources \<Rightarrow> CardinalFst \<Rightarrow> transducer" where
  "address_lm res cardinal =
     concat_fst (concat_fst (concat_fst
       (address_num cardinal)
       direction)
       (address_words res))
       (closure (cross (accep ''.'') []) 0 (Some 1))"

text \<open>\<open>None\<close>: the construction raised while the state table was extended.\<close>

definition get_address_graph :: "resources \<Rightarrow> CardinalFst \<Rightarrow> bool \<Rightarrow> transducer option" where
  "get_address_graph res cardinal lm =
     (case extended_states (states_tsv res) of
        None \<Rightarrow> None
      | Some states \<Rightarrow>
          Some (if lm then union_fst (address_strict res cardinal states) (address_lm res cardinal)
                else address_strict res cardinal states))"

section \<open>The finished tagger\<close>

text \<open>Lines 194 to 199.\<close>

definition address :: "transducer \<Rightarrow> transducer" where
  \<open>address address_graph =
     concat_fst (concat_fst
       (insert_fst ''units: "address" cardinal { integer: "'')
       address_graph)
       (insert_fst ''" } preserve_order: true'')\<close>

text \<open>Lines 220 to 232.\<close>

definition final_graph ::
  "resources \<Rightarrow> CardinalFst \<Rightarrow> DecimalFst \<Rightarrow> FractionFst \<Rightarrow> bool \<Rightarrow> transducer \<Rightarrow> transducer" where
  "final_graph res cardinal decimal fraction deterministic address_graph =
     union_fst (union_fst (union_fst (union_fst (union_fst (union_fst (union_fst (union_fst
       (union_fst (union_fst
       (subgraph_decimal res decimal)
       (subgraph_cardinal res cardinal deterministic))
       (unit_graph res))
       (cardinal_dash_alpha cardinal deterministic))
       (alpha_dash_cardinal cardinal deterministic))
       (decimal_dash_alpha decimal))
       (decimal_times decimal))
       (alpha_dash_decimal decimal))
       (subgraph_fraction res fraction))
       (address address_graph))
       (math res cardinal deterministic)"

text \<open>Lines 234 and 235: \<open>self.fst\<close>.\<close>

definition MeasureFst ::
  "resources \<Rightarrow> CardinalFst \<Rightarrow> DecimalFst \<Rightarrow> FractionFst \<Rightarrow> bool \<Rightarrow> bool \<Rightarrow> transducer option" where
  "MeasureFst res cardinal decimal fraction deterministic lm =
     map_option
       (\<lambda>address_graph.
          optimize (add_tokens ''measure''
            (final_graph res cardinal decimal fraction deterministic address_graph)))
       (get_address_graph res cardinal lm)"

section \<open>A small instance of the grammars\<close>

text \<open>A few numbers, units and operators, enough to run the tagger on the examples of its
  docstring.\<close>

definition sample_numbers :: "(string \<times> string) list" where
  "sample_numbers =
     [(''1'', ''one''), (''2'', ''two''), (''4'', ''four''), (''5'', ''five''), (''10'', ''ten''),
      (''12'', ''twelve''), (''27'', ''twenty seven''), (''88'', ''eighty eight''),
      (''2788'', ''two thousand seven hundred eighty eight'')]"

definition sample_cardinal :: CardinalFst where
  "sample_cardinal =
     \<lparr> graph = string_map sample_numbers,
       range_graph = string_map [],
       graph_hundred_component_at_least_one_none_zero_digit = string_map sample_numbers,
       single_digits_graph = string_map [(''95051'', ''nine five zero five one'')] \<rparr>"

definition sample_decimal :: DecimalFst where
  \<open>sample_decimal =
     \<lparr> final_graph_wo_negative =
         string_map [(''.5'', ''fractional_part: "five"''),
                     (''4.5'', ''integer_part: "four" fractional_part: "five"'')] \<rparr>\<close>

definition sample_fraction :: FractionFst where
  \<open>sample_fraction =
     \<lparr> fraction_graph = string_map [(''1/2'', ''numerator: "one" denominator: "two"'')] \<rparr>\<close>

definition sample_resources :: resources where
  "sample_resources =
     \<lparr> measurements_tsv =
         [(''kg'', ''kilogram''), (''km'', ''kilometer''), (''h'', ''hour''),
          (''C'', ''degree Celsius''), (''F'', ''degree Fahrenheit'')],
       math_operations_tsv = [(''+'', ''plus''), (''-'', ''minus'')],
       states_tsv = [(''California'', ''CA'')],
       address_words_formats = string_map [(''Expy'', ''Expressway'')],
       SINGULAR_TO_PLURAL = (\<lambda>s. [(s @ ''s'', 0)]),
       ordinal_tagger_graph = string_map [],
       ordinal_verbalizer_graph = string_map [] \<rparr>"

section \<open>Notions used to state the properties\<close>

text \<open>What the optional sign writes for the part of the input it reads.\<close>

definition negative_field :: "string \<Rightarrow> string" where
  \<open>negative_field sign = (if sign = ''-'' then ''negative: "true" '' else [])\<close>

text \<open>What \<open>delimiter\<close> reads: a space or nothing. It writes a space either way.\<close>

definition optional_space :: "string \<Rightarrow> bool" where
  "optional_space d \<longleftrightarrow> d = [] \<or> d = '' ''"

text \<open>What stands between the operator and the second operand of an equation, and what is
  written for it: a delimiter, written as a space, or one letter, which is kept.\<close>

definition gap :: "string \<Rightarrow> string \<Rightarrow> bool" where
  "gap d t \<longleftrightarrow> (optional_space d \<and> t = '' '') \<or> (\<exists>c. d = [c] \<and> is_alpha c \<and> t = [c])"

section \<open>The paths of each operation\<close>

lemma in_accep: "(y, w) \<in> set (accep x s) \<longleftrightarrow> s = x \<and> y = x \<and> w = 0"
  by (auto simp: accep_def)

lemma in_cross: "(y, w) \<in> set (cross A z s) \<longleftrightarrow> y = z \<and> (\<exists>u. (u, w) \<in> set (A s))"
  by (auto simp: cross_def)

lemma in_insert_fst: "(y, w) \<in> set (insert_fst z s) \<longleftrightarrow> s = [] \<and> y = z \<and> w = 0"
  by (auto simp: insert_fst_def in_cross in_accep)

lemma in_delete: "(y, w) \<in> set (delete A s) \<longleftrightarrow> y = [] \<and> (\<exists>u. (u, w) \<in> set (A s))"
  by (simp add: delete_def in_cross)

lemma in_union_fst: "(y, w) \<in> set (union_fst A B s) \<longleftrightarrow> (y, w) \<in> set (A s) \<or> (y, w) \<in> set (B s)"
  by (simp add: union_fst_def)

lemma in_join:
  "(y, w) \<in> set (join ps qs) \<longleftrightarrow>
     (\<exists>y1 y2 w1 w2. (y1, w1) \<in> set ps \<and> (y2, w2) \<in> set qs \<and> y = y1 @ y2 \<and> w = w1 + w2)"
  by (fastforce simp: join_def)

lemma in_concat_fst_split:
  "(y, w) \<in> set (concat_fst A B s) \<longleftrightarrow>
     (\<exists>n \<le> length s. \<exists>y1 y2 w1 w2. (y1, w1) \<in> set (A (take n s)) \<and> (y2, w2) \<in> set (B (drop n s))
        \<and> y = y1 @ y2 \<and> w = w1 + w2)"
proof -
  have "(y, w) \<in> set (concat_fst A B s) \<longleftrightarrow>
      (\<exists>n \<le> length s. (y, w) \<in> set (join (A (take n s)) (B (drop n s))))"
    unfolding concat_fst_def set_concat set_map set_upt by (auto simp: less_Suc_eq_le)
  then show ?thesis by (simp add: in_join)
qed

lemma in_concat_fst:
  "(y, w) \<in> set (concat_fst A B s) \<longleftrightarrow>
     (\<exists>s1 s2 y1 y2 w1 w2. s = s1 @ s2 \<and> (y1, w1) \<in> set (A s1) \<and> (y2, w2) \<in> set (B s2)
        \<and> y = y1 @ y2 \<and> w = w1 + w2)"
proof
  assume "(y, w) \<in> set (concat_fst A B s)"
  then obtain n y1 w1 y2 w2 where "(y1, w1) \<in> set (A (take n s))"
    "(y2, w2) \<in> set (B (drop n s))" "y = y1 @ y2" "w = w1 + w2"
    unfolding in_concat_fst_split by blast
  moreover have "s = take n s @ drop n s" by simp
  ultimately show "\<exists>s1 s2 y1 y2 w1 w2. s = s1 @ s2 \<and> (y1, w1) \<in> set (A s1)
      \<and> (y2, w2) \<in> set (B s2) \<and> y = y1 @ y2 \<and> w = w1 + w2"
    by blast
next
  assume "\<exists>s1 s2 y1 y2 w1 w2. s = s1 @ s2 \<and> (y1, w1) \<in> set (A s1)
      \<and> (y2, w2) \<in> set (B s2) \<and> y = y1 @ y2 \<and> w = w1 + w2"
  then obtain s1 s2 y1 y2 w1 w2 where h: "s = s1 @ s2" "(y1, w1) \<in> set (A s1)"
    "(y2, w2) \<in> set (B s2)" "y = y1 @ y2" "w = w1 + w2"
    by blast
  have "length s1 \<le> length s" using h(1) by simp
  moreover have "take (length s1) s = s1" "drop (length s1) s = s2" using h(1) by simp_all
  ultimately show "(y, w) \<in> set (concat_fst A B s)"
    using h(2-5) unfolding in_concat_fst_split by metis
qed

lemma in_compose:
  "(y, w) \<in> set (compose A B s) \<longleftrightarrow>
     (\<exists>m w1 w2. (m, w1) \<in> set (A s) \<and> (y, w2) \<in> set (B m) \<and> w = w1 + w2)"
  by (fastforce simp: compose_def)

lemma in_difference:
  "(y, w) \<in> set (difference A B s) \<longleftrightarrow> (y, w) \<in> set (A s) \<and> B s = []"
  by (auto simp: difference_def)

lemma in_add_weight:
  "(y, w) \<in> set (add_weight A k s) \<longleftrightarrow> (\<exists>v. (y, v) \<in> set (A s) \<and> w = v + k)"
  by (auto simp: add_weight_def)

lemma in_string_map: "(y, w) \<in> set (string_map tbl s) \<longleftrightarrow> (s, y) \<in> set tbl \<and> w = 0"
  by (auto simp: string_map_def)

lemma in_star_split:
  "s \<noteq> [] \<Longrightarrow> (y, w) \<in> set (star A s) \<longleftrightarrow>
     (\<exists>n. 1 \<le> n \<and> n \<le> length s \<and> (\<exists>y1 y2 w1 w2. (y1, w1) \<in> set (A (take n s))
        \<and> (y2, w2) \<in> set (star A (drop n s)) \<and> y = y1 @ y2 \<and> w = w1 + w2))"
proof -
  assume ne: "s \<noteq> []"
  have "star A s = concat (map (\<lambda>n. join (A (take n s)) (star A (drop n s))) [1..<Suc (length s)])"
    using ne by (subst star.simps) simp
  then have "(y, w) \<in> set (star A s) \<longleftrightarrow>
      (\<exists>n. 1 \<le> n \<and> n \<le> length s \<and> (y, w) \<in> set (join (A (take n s)) (star A (drop n s))))"
    unfolding set_concat set_map set_upt by (auto simp: less_Suc_eq_le)
  then show ?thesis by (simp add: in_join)
qed

lemma in_star:
  "(y, w) \<in> set (star A s) \<longleftrightarrow>
     (s = [] \<and> y = [] \<and> w = 0) \<or>
     (\<exists>s1 s2 y1 y2 w1 w2. s1 \<noteq> [] \<and> s = s1 @ s2 \<and> (y1, w1) \<in> set (A s1)
        \<and> (y2, w2) \<in> set (star A s2) \<and> y = y1 @ y2 \<and> w = w1 + w2)"
proof (cases "s = []")
  case True
  then show ?thesis by (simp add: star.simps [of A "[]"])
next
  case False
  have "(y, w) \<in> set (star A s) \<longleftrightarrow>
     (\<exists>s1 s2 y1 y2 w1 w2. s1 \<noteq> [] \<and> s = s1 @ s2 \<and> (y1, w1) \<in> set (A s1)
        \<and> (y2, w2) \<in> set (star A s2) \<and> y = y1 @ y2 \<and> w = w1 + w2)"
  proof
    assume "(y, w) \<in> set (star A s)"
    then obtain n y1 w1 y2 w2 where n: "1 \<le> n" "n \<le> length s"
      and p: "(y1, w1) \<in> set (A (take n s))" "(y2, w2) \<in> set (star A (drop n s))"
      "y = y1 @ y2" "w = w1 + w2"
      unfolding in_star_split [OF False] by blast
    have "take n s \<noteq> []" using n False by auto
    moreover have "s = take n s @ drop n s" by simp
    ultimately show "\<exists>s1 s2 y1 y2 w1 w2. s1 \<noteq> [] \<and> s = s1 @ s2 \<and> (y1, w1) \<in> set (A s1)
        \<and> (y2, w2) \<in> set (star A s2) \<and> y = y1 @ y2 \<and> w = w1 + w2"
      using p by blast
  next
    assume "\<exists>s1 s2 y1 y2 w1 w2. s1 \<noteq> [] \<and> s = s1 @ s2 \<and> (y1, w1) \<in> set (A s1)
        \<and> (y2, w2) \<in> set (star A s2) \<and> y = y1 @ y2 \<and> w = w1 + w2"
    then obtain s1 s2 y1 y2 w1 w2 where h: "s1 \<noteq> []" "s = s1 @ s2" "(y1, w1) \<in> set (A s1)"
      "(y2, w2) \<in> set (star A s2)" "y = y1 @ y2" "w = w1 + w2"
      by blast
    have "1 \<le> length s1" "length s1 \<le> length s" using h(1,2) by (cases s1; simp)+
    moreover have "take (length s1) s = s1" "drop (length s1) s = s2" using h(2) by simp_all
    ultimately show "(y, w) \<in> set (star A s)"
      using h(3-6) unfolding in_star_split [OF False] by metis
  qed
  with False show ?thesis by simp
qed

section \<open>Concatenation, closure and the character classes\<close>

lemma concat_fstI:
  "(y1, w1) \<in> set (A s1) \<Longrightarrow> (y2, w2) \<in> set (B s2) \<Longrightarrow>
   (y1 @ y2, w1 + w2) \<in> set (concat_fst A B (s1 @ s2))"
  unfolding in_concat_fst by blast

lemma in_concat_fst_assoc:
  "(y, w) \<in> set (concat_fst (concat_fst A B) C s) \<longleftrightarrow> (y, w) \<in> set (concat_fst A (concat_fst B C) s)"
proof
  assume "(y, w) \<in> set (concat_fst (concat_fst A B) C s)"
  then obtain s1 s2 s3 y1 y2 y3 w1 w2 w3 where
    h: "s = (s1 @ s2) @ s3" "(y1, w1) \<in> set (A s1)" "(y2, w2) \<in> set (B s2)" "(y3, w3) \<in> set (C s3)"
    "y = (y1 @ y2) @ y3" "w = (w1 + w2) + w3"
    unfolding in_concat_fst by blast
  have "(y1 @ (y2 @ y3), w1 + (w2 + w3)) \<in> set (concat_fst A (concat_fst B C) (s1 @ (s2 @ s3)))"
    by (intro concat_fstI h)
  then show "(y, w) \<in> set (concat_fst A (concat_fst B C) s)"
    using h(1,5,6) by (simp add: add.assoc)
next
  assume "(y, w) \<in> set (concat_fst A (concat_fst B C) s)"
  then obtain s1 s2 s3 y1 y2 y3 w1 w2 w3 where
    h: "s = s1 @ (s2 @ s3)" "(y1, w1) \<in> set (A s1)" "(y2, w2) \<in> set (B s2)" "(y3, w3) \<in> set (C s3)"
    "y = y1 @ (y2 @ y3)" "w = w1 + (w2 + w3)"
    unfolding in_concat_fst by blast
  have "((y1 @ y2) @ y3, (w1 + w2) + w3) \<in> set (concat_fst (concat_fst A B) C ((s1 @ s2) @ s3))"
    by (intro concat_fstI h)
  then show "(y, w) \<in> set (concat_fst (concat_fst A B) C s)"
    using h(1,5,6) by (simp add: add.assoc)
qed

lemma in_concat_insert_left:
  "(y, w) \<in> set (concat_fst (insert_fst z) A s) \<longleftrightarrow> (\<exists>y'. (y', w) \<in> set (A s) \<and> y = z @ y')"
  by (auto simp: in_concat_fst in_insert_fst)

lemma in_concat_insert_right:
  "(y, w) \<in> set (concat_fst A (insert_fst z) s) \<longleftrightarrow> (\<exists>y'. (y', w) \<in> set (A s) \<and> y = y' @ z)"
  by (auto simp: in_concat_fst in_insert_fst)

lemma in_optimize: "(y, w) \<in> set (optimize A s) \<longleftrightarrow> (y, w) \<in> set (A s)"
  by (simp add: optimize_def)

lemma in_closure_optional:
  "(y, w) \<in> set (closure A 0 (Some 1) s) \<longleftrightarrow> (s = [] \<and> y = [] \<and> w = 0) \<or> (y, w) \<in> set (A s)"
  by (auto simp: closure_def in_concat_fst in_accep in_union_fst)

lemma in_closure_star:
  "(y, w) \<in> set (closure A 0 None s) \<longleftrightarrow> (y, w) \<in> set (star A s)"
  by (auto simp: closure_def in_concat_fst in_accep)

lemma in_closure_plus:
  "(y, w) \<in> set (closure A 1 None s) \<longleftrightarrow> (y, w) \<in> set (concat_fst A (star A) s)"
  by (auto simp: closure_def in_concat_fst in_accep)

lemma in_char_class:
  "(y, w) \<in> set (char_class cs s) \<longleftrightarrow> (\<exists>c. s = [c] \<and> c \<in> set cs \<and> y = [c] \<and> w = 0)"
  by (auto simp: char_class_def split: list.splits)

lemma in_NEMO_CHAR: "(y, w) \<in> set (NEMO_CHAR s) \<longleftrightarrow> (\<exists>c. s = [c] \<and> y = [c] \<and> w = 0)"
  by (auto simp: NEMO_CHAR_def split: list.splits)

lemma in_star_single:
  assumes A: "\<And>s y w. (y, w) \<in> set (A s) \<longleftrightarrow> (\<exists>c. s = [c] \<and> P c \<and> y = f c \<and> w = 0)"
  shows "(y, w) \<in> set (star A s) \<longleftrightarrow> (\<forall>c \<in> set s. P c) \<and> y = concat (map f s) \<and> w = 0"
proof (induction s arbitrary: y w)
  case Nil
  show ?case by (subst in_star) simp
next
  case (Cons a s)
  show ?case
  proof
    assume "(y, w) \<in> set (star A (a # s))"
    then obtain s1 s2 y1 y2 w1 w2 where h: "s1 \<noteq> []" "a # s = s1 @ s2" "(y1, w1) \<in> set (A s1)"
      "(y2, w2) \<in> set (star A s2)" "y = y1 @ y2" "w = w1 + w2"
      by (subst (asm) in_star) auto
    from h(3) obtain c where c: "s1 = [c]" "P c" "y1 = f c" "w1 = 0" unfolding A by blast
    with h(2) have "c = a" "s2 = s" by simp_all
    with h c show "(\<forall>c \<in> set (a # s). P c) \<and> y = concat (map f (a # s)) \<and> w = 0"
      by (simp add: Cons.IH)
  next
    assume r: "(\<forall>c \<in> set (a # s). P c) \<and> y = concat (map f (a # s)) \<and> w = 0"
    then have "(f a, 0) \<in> set (A [a])" "(concat (map f s), 0) \<in> set (star A s)"
      by (simp_all add: A Cons.IH)
    then have "[a] \<noteq> [] \<and> a # s = [a] @ s \<and> (f a, 0) \<in> set (A [a])
        \<and> (concat (map f s), 0) \<in> set (star A s) \<and> y = f a @ concat (map f s) \<and> w = 0 + 0"
      using r by simp
    then show "(y, w) \<in> set (star A (a # s))"
      by (subst in_star) blast
  qed
qed

lemma in_plus_single:
  assumes A: "\<And>s y w. (y, w) \<in> set (A s) \<longleftrightarrow> (\<exists>c. s = [c] \<and> P c \<and> y = f c \<and> w = 0)"
  shows "(y, w) \<in> set (closure A 1 None s) \<longleftrightarrow>
     s \<noteq> [] \<and> (\<forall>c \<in> set s. P c) \<and> y = concat (map f s) \<and> w = 0"
proof
  assume "(y, w) \<in> set (closure A 1 None s)"
  then obtain s1 s2 y1 y2 w1 w2 where h: "s = s1 @ s2" "(y1, w1) \<in> set (A s1)"
    "(y2, w2) \<in> set (star A s2)" "y = y1 @ y2" "w = w1 + w2"
    unfolding in_closure_plus in_concat_fst by blast
  from h(2) obtain c where c: "s1 = [c]" "P c" "y1 = f c" "w1 = 0" unfolding A by blast
  from h(3) have "(\<forall>c \<in> set s2. P c) \<and> y2 = concat (map f s2) \<and> w2 = 0"
    unfolding in_star_single [of A P f, OF A] .
  with h c show "s \<noteq> [] \<and> (\<forall>c \<in> set s. P c) \<and> y = concat (map f s) \<and> w = 0"
    by simp
next
  assume r: "s \<noteq> [] \<and> (\<forall>c \<in> set s. P c) \<and> y = concat (map f s) \<and> w = 0"
  then obtain a t where s: "s = a # t" by (cases s) auto
  have "(f a, 0) \<in> set (A [a])" using r s by (simp add: A)
  moreover have "(concat (map f t), 0) \<in> set (star A t)"
    unfolding in_star_single [of A P f, OF A] using r s by simp
  ultimately have "(f a @ concat (map f t), 0 + 0) \<in> set (concat_fst A (star A) ([a] @ t))"
    by (rule concat_fstI)
  then show "(y, w) \<in> set (closure A 1 None s)"
    unfolding in_closure_plus using r s by simp
qed

lemma in_cross_accep: "(y, w) \<in> set (cross (accep x) z s) \<longleftrightarrow> s = x \<and> y = z \<and> w = 0"
  by (auto simp: in_cross in_accep)

lemma in_wrap:
  "(y, w) \<in> set (concat_fst (concat_fst (insert_fst a) B) (insert_fst b) s) \<longleftrightarrow>
     (\<exists>u. (u, w) \<in> set (B s) \<and> y = a @ u @ b)"
  by (auto simp: in_concat_insert_left in_concat_insert_right)

lemma in_concat_head:
  assumes "\<And>x t v. (t, v) \<in> set (A x) \<longleftrightarrow> P x \<and> t = f x \<and> v = 0"
  shows "(y, w) \<in> set (concat_fst A B s) \<longleftrightarrow>
     (\<exists>p r u. s = p @ r \<and> P p \<and> (u, w) \<in> set (B r) \<and> y = f p @ u)"
  unfolding in_concat_fst assms by auto

lemma in_concat_tail:
  assumes "\<And>x t v. (t, v) \<in> set (B x) \<longleftrightarrow> P x \<and> t = f x \<and> v = 0"
  shows "(y, w) \<in> set (concat_fst A B s) \<longleftrightarrow>
     (\<exists>q r u. s = q @ r \<and> P r \<and> (u, w) \<in> set (A q) \<and> y = u @ f r)"
  unfolding in_concat_fst assms by auto

lemma in_per:
  "(y, w) \<in> set (cross (union_fst (accep ''/'') (accep ''per'')) ''per'' s) \<longleftrightarrow>
     (s = ''/'' \<or> s = ''per'') \<and> y = ''per'' \<and> w = 0"
  unfolding in_cross in_union_fst in_accep by blast

lemma in_concat_per_left:
  "(y, w) \<in> set (concat_fst (cross (union_fst (accep ''/'') (accep ''per'')) ''per'') B s) \<longleftrightarrow>
     (\<exists>p r u. s = p @ r \<and> (p = ''/'' \<or> p = ''per'') \<and> (u, w) \<in> set (B r) \<and> y = ''per'' @ u)"
  by (rule in_concat_head) (rule in_per)

lemma in_concat_cross_accep_left:
  "(y, w) \<in> set (concat_fst (cross (accep x) z) B s) \<longleftrightarrow>
     (\<exists>p r u. s = p @ r \<and> p = x \<and> (u, w) \<in> set (B r) \<and> y = z @ u)"
  by (rule in_concat_head) (rule in_cross_accep)

lemma in_concat_accep_left:
  "(y, w) \<in> set (concat_fst (accep x) B s) \<longleftrightarrow>
     (\<exists>p r u. s = p @ r \<and> p = x \<and> (u, w) \<in> set (B r) \<and> y = p @ u)"
  by (rule in_concat_head [where f = "\<lambda>p. p"]) (auto simp: in_accep)

lemma in_NEMO_SIGMA: "(y, w) \<in> set (NEMO_SIGMA s) \<longleftrightarrow> y = s \<and> w = 0"
proof -
  have "(y, w) \<in> set (star NEMO_CHAR s) \<longleftrightarrow>
      (\<forall>c \<in> set s. True) \<and> y = concat (map (\<lambda>c. [c]) s) \<and> w = 0"
    by (rule in_star_single) (simp add: in_NEMO_CHAR)
  then show ?thesis
    by (simp add: NEMO_SIGMA_def in_closure_star concat_map_singleton)
qed

lemma in_star_char_class:
  "(y, w) \<in> set (star (char_class cs) s) \<longleftrightarrow> (\<forall>c \<in> set s. c \<in> set cs) \<and> y = s \<and> w = 0"
proof -
  have "(y, w) \<in> set (star (char_class cs) s) \<longleftrightarrow>
      (\<forall>c \<in> set s. c \<in> set cs) \<and> y = concat (map (\<lambda>c. [c]) s) \<and> w = 0"
    by (rule in_star_single) (simp add: in_char_class)
  then show ?thesis by (simp add: concat_map_singleton)
qed

lemma in_NEMO_ALPHA:
  "(y, w) \<in> set (NEMO_ALPHA s) \<longleftrightarrow> (\<exists>c. s = [c] \<and> is_alpha c \<and> y = [c] \<and> w = 0)"
  by (auto simp: NEMO_ALPHA_def NEMO_LOWER_def NEMO_UPPER_def in_union_fst in_char_class is_alpha_def)

lemma in_star_NEMO_ALPHA:
  "(y, w) \<in> set (star NEMO_ALPHA s) \<longleftrightarrow> (\<forall>c \<in> set s. is_alpha c) \<and> y = s \<and> w = 0"
proof -
  have "(y, w) \<in> set (star NEMO_ALPHA s) \<longleftrightarrow>
      (\<forall>c \<in> set s. is_alpha c) \<and> y = concat (map (\<lambda>c. [c]) s) \<and> w = 0"
    by (rule in_star_single) (simp add: in_NEMO_ALPHA)
  then show ?thesis by (simp add: concat_map_singleton)
qed

lemma in_NEMO_DIGIT:
  "(y, w) \<in> set (NEMO_DIGIT s) \<longleftrightarrow> (\<exists>c. s = [c] \<and> is_digit c \<and> y = [c] \<and> w = 0)"
  by (simp add: NEMO_DIGIT_def in_char_class is_digit_def)

lemma distinct_ascii_uppercase: "distinct ascii_uppercase"
  by (simp add: ascii_uppercase_def)

lemma length_ascii: "length ascii_uppercase = length ascii_lowercase"
  by (simp add: ascii_uppercase_def ascii_lowercase_def)

lemma in_zip_upper_lower:
  "(c, l) \<in> set (zip ascii_uppercase ascii_lowercase) \<longleftrightarrow> is_upper c \<and> l = lower_char c"
proof -
  have d: "distinct (map fst (zip ascii_uppercase ascii_lowercase))"
    using distinct_ascii_uppercase length_ascii by simp
  have "(c, l) \<in> set (zip ascii_uppercase ascii_lowercase) \<longleftrightarrow>
      map_of (zip ascii_uppercase ascii_lowercase) c = Some l"
    using d by simp
  moreover have "fst ` set (zip ascii_uppercase ascii_lowercase) = set ascii_uppercase"
    using map_fst_zip [OF length_ascii] by (metis set_map)
  then have "is_upper c \<longleftrightarrow> map_of (zip ascii_uppercase ascii_lowercase) c \<noteq> None"
    unfolding is_upper_def map_of_eq_None_iff by simp
  ultimately show ?thesis
    by (auto simp: lower_char_def)
qed

lemma in_TO_LOWER:
  "(y, w) \<in> set (TO_LOWER s) \<longleftrightarrow> (\<exists>c. s = [c] \<and> is_upper c \<and> y = [lower_char c] \<and> w = 0)"
proof -
  have "(s, y) \<in> set (map (\<lambda>(x, y). ([x], [y])) (zip ascii_uppercase ascii_lowercase)) \<longleftrightarrow>
      (\<exists>c l. s = [c] \<and> y = [l] \<and> (c, l) \<in> set (zip ascii_uppercase ascii_lowercase))"
    by auto
  then show ?thesis
    unfolding TO_LOWER_def in_string_map in_zip_upper_lower by auto
qed

lemma in_star_TO_LOWER:
  "(y, w) \<in> set (star TO_LOWER s) \<longleftrightarrow> (\<forall>c \<in> set s. is_upper c) \<and> y = map lower_char s \<and> w = 0"
proof -
  have "(y, w) \<in> set (star TO_LOWER s) \<longleftrightarrow>
      (\<forall>c \<in> set s. is_upper c) \<and> y = concat (map (\<lambda>c. [lower_char c]) s) \<and> w = 0"
    by (rule in_star_single) (simp add: in_TO_LOWER)
  then show ?thesis by (simp add: concat_map_singleton)
qed

lemma in_delete_space:
  "(y, w) \<in> set (delete_space s) \<longleftrightarrow> (\<forall>c \<in> set s. is_white_space c) \<and> y = [] \<and> w = 0"
  by (auto simp: delete_space_def in_delete in_closure_star NEMO_WHITE_SPACE_def in_star_char_class
      is_white_space_def)

lemma in_convert_space:
  "(y, w) \<in> set (convert_space A s) \<longleftrightarrow> (\<exists>m. (m, w) \<in> set (A s) \<and> y = space_to_nbsp m)"
  by (auto simp: convert_space_def in_compose rewrite_space_def)

lemma in_plus_TO_LOWER:
  "(y, w) \<in> set (closure TO_LOWER 1 None s) \<longleftrightarrow>
     s \<noteq> [] \<and> (\<forall>c \<in> set s. is_upper c) \<and> y = map lower_char s \<and> w = 0"
proof -
  have "(y, w) \<in> set (closure TO_LOWER 1 None s) \<longleftrightarrow>
      s \<noteq> [] \<and> (\<forall>c \<in> set s. is_upper c) \<and> y = concat (map (\<lambda>c. [lower_char c]) s) \<and> w = 0"
    by (rule in_plus_single) (simp add: in_TO_LOWER)
  then show ?thesis by (simp add: concat_map_singleton)
qed

lemma in_plus_NEMO_ALPHA:
  "(y, w) \<in> set (closure NEMO_ALPHA 1 None s) \<longleftrightarrow>
     s \<noteq> [] \<and> (\<forall>c \<in> set s. is_alpha c) \<and> y = s \<and> w = 0"
proof -
  have "(y, w) \<in> set (closure NEMO_ALPHA 1 None s) \<longleftrightarrow>
      s \<noteq> [] \<and> (\<forall>c \<in> set s. is_alpha c) \<and> y = concat (map (\<lambda>c. [c]) s) \<and> w = 0"
    by (rule in_plus_single) (simp add: in_NEMO_ALPHA)
  then show ?thesis by (simp add: concat_map_singleton)
qed

lemma in_concat_delete_space_left:
  "(y, w) \<in> set (concat_fst delete_space B s) \<longleftrightarrow>
     (\<exists>ws r. s = ws @ r \<and> (\<forall>c \<in> set ws. is_white_space c) \<and> (y, w) \<in> set (B r))"
  unfolding in_concat_fst in_delete_space by auto

lemma in_concat_delete_space_right:
  "(y, w) \<in> set (concat_fst A delete_space s) \<longleftrightarrow>
     (\<exists>q ws. s = q @ ws \<and> (\<forall>c \<in> set ws. is_white_space c) \<and> (y, w) \<in> set (A q))"
  unfolding in_concat_fst in_delete_space by auto

section \<open>The unit lexicon\<close>

lemma in_graph_unit_file:
  "(y, w) \<in> set (graph_unit_file res s) \<longleftrightarrow> (s, y) \<in> set (measurements_tsv res) \<and> w = 0"
  by (simp add: graph_unit_file_def in_string_map)

lemma in_case_fold:
  "(y, w) \<in> set (concat_fst (closure TO_LOWER 1 None) (closure NEMO_ALPHA 0 None) s) \<longleftrightarrow>
     w = 0 \<and> (\<exists>u r. u \<noteq> [] \<and> s = u @ r \<and> (\<forall>c \<in> set u. is_upper c) \<and> (\<forall>c \<in> set r. is_alpha c)
        \<and> y = map lower_char u @ r)"
  unfolding in_concat_fst in_plus_TO_LOWER in_closure_star in_star_NEMO_ALPHA by auto

text \<open>
  C9. The case-folded unit variant accepts exactly the inputs that are a non-empty run of
  upper-case letters followed by any run of letters, and whose form with that first run in
  lower case is a key of the unit table; the output is the table's entry for that key.
\<close>

theorem graph_unit_case_accepts:
  "(y, w) \<in> set (graph_unit_case res s) \<longleftrightarrow>
     w = 0 \<and> (\<exists>u r. u \<noteq> [] \<and> s = u @ r \<and> (\<forall>c \<in> set u. is_upper c) \<and> (\<forall>c \<in> set r. is_alpha c)
        \<and> (map lower_char u @ r, y) \<in> set (measurements_tsv res))"
  unfolding graph_unit_case_def in_optimize in_compose in_case_fold in_graph_unit_file
  by auto

theorem graph_unit_case_accepts_examples:
  "(''kilogram'', 0) \<in> set (graph_unit_case sample_resources ''KG'')
   \<and> (''kilogram'', 0) \<in> set (graph_unit_case sample_resources ''Kg'')
   \<and> graph_unit_case sample_resources ''kG'' = []"
proof -
  have up: "is_upper CHR ''K''" "is_upper CHR ''G''" "is_alpha CHR ''g''" "\<not> is_upper CHR ''k''"
    by (simp_all add: is_upper_def is_alpha_def ascii_uppercase_def ascii_lowercase_def)
  have low: "lower_char CHR ''K'' = CHR ''k''" "lower_char CHR ''G'' = CHR ''g''"
    by (simp_all add: lower_char_def ascii_uppercase_def ascii_lowercase_def)
  have tbl: "(''kg'', ''kilogram'') \<in> set (measurements_tsv sample_resources)"
    by (simp add: sample_resources_def)
  have "''KG'' \<noteq> [] \<and> ''KG'' = ''KG'' @ [] \<and> (\<forall>c \<in> set ''KG''. is_upper c) \<and> (\<forall>c \<in> set []. is_alpha c)
      \<and> (map lower_char ''KG'' @ [], ''kilogram'') \<in> set (measurements_tsv sample_resources)"
    using up low tbl by simp
  then have 1: "(''kilogram'', 0) \<in> set (graph_unit_case sample_resources ''KG'')"
    unfolding graph_unit_case_accepts [of _ _ _ "''KG''"] by blast
  have "''K'' \<noteq> [] \<and> ''Kg'' = ''K'' @ ''g'' \<and> (\<forall>c \<in> set ''K''. is_upper c) \<and> (\<forall>c \<in> set ''g''. is_alpha c)
      \<and> (map lower_char ''K'' @ ''g'', ''kilogram'') \<in> set (measurements_tsv sample_resources)"
    using up low tbl by simp
  then have 2: "(''kilogram'', 0) \<in> set (graph_unit_case sample_resources ''Kg'')"
    unfolding graph_unit_case_accepts [of _ _ _ "''Kg''"] by blast
  have "(y, w) \<notin> set (graph_unit_case sample_resources ''kG'')" for y w
  proof
    assume "(y, w) \<in> set (graph_unit_case sample_resources ''kG'')"
    then obtain u r where "u \<noteq> []" "''kG'' = u @ r" "\<forall>c \<in> set u. is_upper c"
      unfolding graph_unit_case_accepts by blast
    then have "is_upper CHR ''k''" by (cases u) auto
    with up show False by simp
  qed
  then have 3: "graph_unit_case sample_resources ''kG'' = []"
    by (cases "graph_unit_case sample_resources ''kG''") (auto simp: list.set_intros)
  from 1 2 3 show ?thesis by simp
qed

lemma graph_unit_cased_weight: "(y, w) \<in> set (graph_unit_cased res s) \<Longrightarrow> w = 0"
  unfolding graph_unit_cased_def in_union_fst in_graph_unit_file graph_unit_case_def in_optimize
      in_compose in_case_fold
  by auto

lemma in_graph_unit:
  "(y, w) \<in> set (graph_unit res s) \<longleftrightarrow>
     (\<exists>m. (m, w) \<in> set (graph_unit_cased res s) \<and> y = space_to_nbsp m)"
  by (simp add: graph_unit_def in_convert_space)

lemma in_graph_unit2:
  "(y, w) \<in> set (graph_unit2 res s) \<longleftrightarrow>
     (\<exists>ws x u. s = ''/'' @ ws @ x \<and> (\<forall>c \<in> set ws. is_white_space c)
        \<and> (u, w) \<in> set (graph_unit res x) \<and> y = ''per'' @ NEMO_NON_BREAKING_SPACE @ u)"
  unfolding graph_unit2_def in_concat_fst_assoc
  unfolding in_concat_cross_accep_left in_concat_delete_space_left in_concat_insert_left
  by blast

lemma in_optional_graph_unit2:
  "(y, w) \<in> set (optional_graph_unit2 res s) \<longleftrightarrow>
     (s = [] \<and> y = [] \<and> w = 0) \<or>
     (\<exists>ws r p. s = ws @ r \<and> (\<forall>c \<in> set ws. is_white_space c)
        \<and> (p, w) \<in> set (graph_unit2 res r) \<and> y = NEMO_NON_BREAKING_SPACE @ p)"
  unfolding optional_graph_unit2_def in_closure_optional in_concat_fst_assoc
  unfolding in_concat_delete_space_left in_concat_insert_left
  by blast

lemma in_unit_plural:
  \<open>(y, w) \<in> set (unit_plural res s) \<longleftrightarrow>
     (\<exists>u. ((\<exists>s1 s2 u1 u2 w1 w2. s = s1 @ s2 \<and> (u1, w1) \<in> set (graph_unit_plural res s1)
            \<and> (u2, w2) \<in> set (optional_graph_unit2 res s2) \<and> u = u1 @ u2 \<and> w = w1 + w2)
         \<or> (u, w) \<in> set (graph_unit2 res s))
        \<and> y = ''units: "'' @ u @ ''"'')\<close>
  unfolding unit_plural_def in_wrap
  unfolding in_union_fst in_concat_fst
  by (rule refl)

lemma in_unit_singular:
  \<open>(y, w) \<in> set (unit_singular res s) \<longleftrightarrow>
     (\<exists>u. ((\<exists>s1 s2 u1 u2 w1 w2. s = s1 @ s2 \<and> (u1, w1) \<in> set (graph_unit res s1)
            \<and> (u2, w2) \<in> set (optional_graph_unit2 res s2) \<and> u = u1 @ u2 \<and> w = w1 + w2)
         \<or> (u, w) \<in> set (graph_unit2 res s))
        \<and> y = ''units: "'' @ u @ ''"'')\<close>
  unfolding unit_singular_def in_wrap
  unfolding in_union_fst in_concat_fst
  by (rule refl)

lemma in_unit_graph:
  \<open>(y, w) \<in> set (unit_graph res s) \<longleftrightarrow>
     (\<exists>p ws x u. s = p @ ws @ x \<and> (p = ''/'' \<or> p = ''per'') \<and> (\<forall>c \<in> set ws. is_white_space c)
        \<and> (u, w) \<in> set (graph_unit res x)
        \<and> y = (''cardinal { integer: "-" } units: "'' @ ''per'' @ NEMO_NON_BREAKING_SPACE @ u)
               @ ''" preserve_order: true'')\<close>
  unfolding unit_graph_def in_concat_insert_right
  unfolding in_concat_fst_assoc
  unfolding in_concat_insert_left in_concat_per_left in_concat_delete_space_left
  by blast

lemma degrees_rejected:
  "union_fst (accep a) (accep b) c = [] \<longleftrightarrow> c \<noteq> a \<and> c \<noteq> b"
  by (simp add: union_fst_def accep_def)

lemma in_graph_unit_no_degrees:
  "(y, w) \<in> set (graph_unit_no_degrees res s) \<longleftrightarrow>
     (y, w) \<in> set (graph_unit_cased res s) \<and> y \<noteq> ''degree Celsius'' \<and> y \<noteq> ''degree Fahrenheit''"
  unfolding graph_unit_no_degrees_def in_optimize in_compose in_difference in_NEMO_SIGMA
    degrees_rejected
  by auto

lemma in_degree_plural:
  "(y, w) \<in> set (compose (compose (graph_unit_cased res) (accep d)) (cross (accep d) ds) s) \<longleftrightarrow>
     (d, 0) \<in> set (graph_unit_cased res s) \<and> y = ds \<and> w = 0"
  unfolding in_compose in_accep in_cross_accep
  using graph_unit_cased_weight by auto

lemma in_graph_unit_plural:
  "(y, w) \<in> set (graph_unit_plural res s) \<longleftrightarrow>
     (\<exists>c p. (c, 0) \<in> set (graph_unit_cased res s) \<and> c \<noteq> ''degree Celsius''
        \<and> c \<noteq> ''degree Fahrenheit'' \<and> (p, w) \<in> set (SINGULAR_TO_PLURAL res c)
        \<and> y = space_to_nbsp p)
     \<or> ((''degree Celsius'', 0) \<in> set (graph_unit_cased res s) \<and> y = ''degrees Celsius'' \<and> w = 0)
     \<or> ((''degree Fahrenheit'', 0) \<in> set (graph_unit_cased res s) \<and> y = ''degrees Fahrenheit''
          \<and> w = 0)"
proof -
  have "(y, w) \<in> set (convert_space (compose (graph_unit_no_degrees res) (SINGULAR_TO_PLURAL res)) s)
      \<longleftrightarrow> (\<exists>c p. (c, 0) \<in> set (graph_unit_cased res s) \<and> c \<noteq> ''degree Celsius''
        \<and> c \<noteq> ''degree Fahrenheit'' \<and> (p, w) \<in> set (SINGULAR_TO_PLURAL res c)
        \<and> y = space_to_nbsp p)"
    unfolding in_convert_space in_compose in_graph_unit_no_degrees
    using graph_unit_cased_weight by fastforce
  then show ?thesis
    unfolding graph_unit_plural_def in_optimize in_union_fst in_degree_plural by simp
qed

lemma in_graph_unit_cased:
  "(y, w) \<in> set (graph_unit_cased res s) \<longleftrightarrow>
     w = 0 \<and> ((s, y) \<in> set (measurements_tsv res) \<or>
       (\<exists>u r. u \<noteq> [] \<and> s = u @ r \<and> (\<forall>c \<in> set u. is_upper c) \<and> (\<forall>c \<in> set r. is_alpha c)
          \<and> (map lower_char u @ r, y) \<in> set (measurements_tsv res)))"
  unfolding graph_unit_cased_def in_union_fst in_graph_unit_file graph_unit_case_def in_optimize
    in_compose in_case_fold
  by auto

lemma sample_measurements:
  "measurements_tsv sample_resources =
     [(''kg'', ''kilogram''), (''km'', ''kilometer''), (''h'', ''hour''),
      (''C'', ''degree Celsius''), (''F'', ''degree Fahrenheit'')]"
  by (simp add: sample_resources_def)

lemma sample_plural: "SINGULAR_TO_PLURAL sample_resources c = [(c @ ''s'', 0)]"
  by (simp add: sample_resources_def)

lemma sample_unit_C:
  "(y, w) \<in> set (graph_unit_cased sample_resources ''C'') \<longleftrightarrow> y = ''degree Celsius'' \<and> w = 0"
proof -
  have split: "u = ''C'' \<and> r = []" if "u \<noteq> []" "''C'' = u @ r" for u r :: string
    using that by (cases u) auto
  have low: "lower_char CHR ''C'' = CHR ''c''"
    by (simp add: lower_char_def ascii_uppercase_def ascii_lowercase_def)
  have tbl: "(''C'', y) \<in> set (measurements_tsv sample_resources) \<longleftrightarrow> y = ''degree Celsius''"
    unfolding sample_measurements by simp
  have no: "(''c'', y) \<notin> set (measurements_tsv sample_resources)"
    unfolding sample_measurements by simp
  have "\<not> (\<exists>u r. u \<noteq> [] \<and> ''C'' = u @ r \<and> (\<forall>c \<in> set u. is_upper c) \<and> (\<forall>c \<in> set r. is_alpha c)
          \<and> (map lower_char u @ r, y) \<in> set (measurements_tsv sample_resources))"
  proof
    assume "\<exists>u r. u \<noteq> [] \<and> ''C'' = u @ r \<and> (\<forall>c \<in> set u. is_upper c) \<and> (\<forall>c \<in> set r. is_alpha c)
          \<and> (map lower_char u @ r, y) \<in> set (measurements_tsv sample_resources)"
    then obtain u r where h: "u \<noteq> []" "''C'' = u @ r"
      "(map lower_char u @ r, y) \<in> set (measurements_tsv sample_resources)" by blast
    from split [OF h(1,2)] h(3) have "(''c'', y) \<in> set (measurements_tsv sample_resources)"
      by (simp add: low)
    with no show False by blast
  qed
  then show ?thesis
    unfolding in_graph_unit_cased tbl by blast
qed

lemma graph_unit_of_table:
  "(s, c) \<in> set (measurements_tsv res) \<Longrightarrow> (space_to_nbsp c, 0) \<in> set (graph_unit res s)"
  unfolding in_graph_unit in_graph_unit_cased by blast

lemma graph_unit_plural_of_table:
  "(s, c) \<in> set (measurements_tsv res) \<Longrightarrow> c \<noteq> ''degree Celsius'' \<Longrightarrow> c \<noteq> ''degree Fahrenheit'' \<Longrightarrow>
   (p, w) \<in> set (SINGULAR_TO_PLURAL res c) \<Longrightarrow>
   (space_to_nbsp p, w) \<in> set (graph_unit_plural res s)"
  unfolding in_graph_unit_plural in_graph_unit_cased by blast

lemma space_free_nbsp: "CHR '' '' \<notin> set s \<Longrightarrow> space_to_nbsp s = s"
  by (induction s) (auto simp: space_to_nbsp_def NEMO_SPACE_def)

lemma no_space_after_nbsp: "CHR '' '' \<notin> set (space_to_nbsp s)"
  by (induction s) (auto simp: space_to_nbsp_def NEMO_SPACE_def NEMO_NON_BREAKING_SPACE_def)

lemma unit_plural_per:
  assumes "(u1, w1) \<in> set (graph_unit_plural res x1)" "\<forall>c \<in> set ws. is_white_space c"
    "(p, w2) \<in> set (graph_unit2 res r)"
  shows \<open>(''units: "'' @ (u1 @ NEMO_NON_BREAKING_SPACE @ p) @ ''"'', w1 + w2)
           \<in> set (unit_plural res (x1 @ ws @ r))\<close>
proof -
  have "(NEMO_NON_BREAKING_SPACE @ p, w2) \<in> set (optional_graph_unit2 res (ws @ r))"
    unfolding in_optional_graph_unit2 using assms(2,3) by blast
  with assms(1) show ?thesis
    unfolding in_unit_plural by blast
qed

lemma in_optional_graph_negative:
  "(y, w) \<in> set (optional_graph_negative s) \<longleftrightarrow> (s = [] \<or> s = ''-'') \<and> y = negative_field s \<and> w = 0"
  unfolding optional_graph_negative_def in_closure_optional in_concat_insert_left in_cross_accep
  by (auto simp: negative_field_def)

lemma in_concat_negative_left:
  "(y, w) \<in> set (concat_fst optional_graph_negative B s) \<longleftrightarrow>
     (\<exists>p r u. s = p @ r \<and> (p = [] \<or> p = ''-'') \<and> (u, w) \<in> set (B r) \<and> y = negative_field p @ u)"
  by (rule in_concat_head) (rule in_optional_graph_negative)

lemma in_not_one:
  "(c, w) \<in> set (compose (difference NEMO_SIGMA (accep ''1'')) A q) \<longleftrightarrow>
     q \<noteq> ''1'' \<and> (c, w) \<in> set (A q)"
  unfolding in_compose in_difference in_NEMO_SIGMA
  by (auto simp: accep_def)

lemma in_signed_block:
  "(y, w) \<in> set (concat_fst (insert_fst a) (concat_fst optional_graph_negative
        (concat_fst (insert_fst b) B)) s) \<longleftrightarrow>
     (\<exists>sg r u. s = sg @ r \<and> (sg = [] \<or> sg = ''-'') \<and> (u, w) \<in> set (B r)
        \<and> y = a @ negative_field sg @ b @ u)"
  unfolding in_concat_insert_left in_concat_negative_left by blast

lemma in_quantity_tail:
  "(t, v) \<in> set (concat_fst delete_space (concat_fst (insert_fst a) (concat_fst (insert_fst b) U)) r)
     \<longleftrightarrow> (\<exists>ws x up. r = ws @ x \<and> (\<forall>c \<in> set ws. is_white_space c) \<and> (up, v) \<in> set (U x)
        \<and> t = a @ b @ up)"
  unfolding in_concat_delete_space_left in_concat_insert_left by blast

lemma in_plural_quantity:
  "(t, v) \<in> set (concat_fst (compose (difference NEMO_SIGMA (accep ''1'')) A)
        (concat_fst delete_space (concat_fst (insert_fst a) (concat_fst (insert_fst b) U))) r)
     \<longleftrightarrow> (\<exists>q ws x c wc up wu. r = q @ ws @ x \<and> q \<noteq> ''1'' \<and> (c, wc) \<in> set (A q)
        \<and> (\<forall>c \<in> set ws. is_white_space c) \<and> (up, wu) \<in> set (U x)
        \<and> t = c @ a @ b @ up \<and> v = wc + wu)"
  unfolding in_concat_fst [of _ _ "compose _ _"] in_not_one in_quantity_tail by blast

lemma in_singular_quantity:
  "(t, v) \<in> set (concat_fst (cross (accep ''1'') ''one'')
        (concat_fst delete_space (concat_fst (insert_fst a) (concat_fst (insert_fst b) U))) r)
     \<longleftrightarrow> (\<exists>ws x up. r = ''1'' @ ws @ x
        \<and> (\<forall>c \<in> set ws. is_white_space c) \<and> (up, v) \<in> set (U x)
        \<and> t = ''one'' @ a @ b @ up)"
  unfolding in_concat_cross_accep_left in_quantity_tail by blast

lemma in_subgraph_cardinal_plural:
  \<open>(y, w) \<in> set (subgraph_cardinal_plural res cardinal deterministic s) \<longleftrightarrow>
     (\<exists>sg q ws x c wc up wu. s = sg @ q @ ws @ x \<and> (sg = [] \<or> sg = ''-'') \<and> q \<noteq> ''1''
        \<and> (c, wc) \<in> set (cardinal_graph cardinal deterministic q)
        \<and> (\<forall>c \<in> set ws. is_white_space c) \<and> (up, wu) \<in> set (unit_plural res x)
        \<and> y = ''cardinal { '' @ negative_field sg @ ''integer: "'' @ c @ ''"'' @ '' } '' @ up
        \<and> w = wc + wu)\<close>
  unfolding subgraph_cardinal_plural_def in_concat_fst_assoc
  unfolding in_signed_block in_plural_quantity
  by blast

lemma in_subgraph_cardinal_singular:
  \<open>(y, w) \<in> set (subgraph_cardinal_singular res s) \<longleftrightarrow>
     (\<exists>sg ws x up. s = sg @ ''1'' @ ws @ x \<and> (sg = [] \<or> sg = ''-'')
        \<and> (\<forall>c \<in> set ws. is_white_space c) \<and> (up, w) \<in> set (unit_singular res x)
        \<and> y = ''cardinal { '' @ negative_field sg @ ''integer: "'' @ ''one'' @ ''"'' @ '' } '' @ up)\<close>
  unfolding subgraph_cardinal_singular_def in_concat_fst_assoc
  unfolding in_signed_block in_singular_quantity
  by blast

lemma unit_singular_simple:
  assumes "(u, w) \<in> set (graph_unit res x)"
  shows \<open>(''units: "'' @ u @ ''"'', w) \<in> set (unit_singular res x)\<close>
proof -
  have "x = x @ [] \<and> (u, w) \<in> set (graph_unit res x) \<and> ([], 0) \<in> set (optional_graph_unit2 res [])
      \<and> u = u @ [] \<and> w = w + 0"
    using assms by (simp add: in_optional_graph_unit2)
  then show ?thesis unfolding in_unit_singular by blast
qed

lemma unit_plural_simple:
  assumes "(u, w) \<in> set (graph_unit_plural res x)"
  shows \<open>(''units: "'' @ u @ ''"'', w) \<in> set (unit_plural res x)\<close>
proof -
  have "x = x @ [] \<and> (u, w) \<in> set (graph_unit_plural res x) \<and> ([], 0) \<in> set (optional_graph_unit2 res [])
      \<and> u = u @ [] \<and> w = w + 0"
    using assms by (simp add: in_optional_graph_unit2)
  then show ?thesis unfolding in_unit_plural by blast
qed

lemma sample_cardinal_graph:
  "(c, w) \<in> set (cardinal_graph sample_cardinal True q) \<longleftrightarrow> (q, c) \<in> set sample_numbers \<and> w = 0"
  by (simp add: cardinal_graph_def sample_cardinal_def in_string_map)

lemma sample_kilogram:
  \<open>(''units: "kilogram"'', 0) \<in> set (unit_singular sample_resources ''kg'')\<close>
proof -
  have "(space_to_nbsp ''kilogram'', 0) \<in> set (graph_unit sample_resources ''kg'')"
    by (rule graph_unit_of_table) (simp add: sample_measurements)
  then have "(''kilogram'', 0) \<in> set (graph_unit sample_resources ''kg'')"
    by (simp add: space_free_nbsp)
  from unit_singular_simple [OF this] show ?thesis by simp
qed

lemma sample_kilograms:
  \<open>(''units: "kilograms"'', 0) \<in> set (unit_plural sample_resources ''kg'')\<close>
proof -
  have "(space_to_nbsp ''kilograms'', 0) \<in> set (graph_unit_plural sample_resources ''kg'')"
    by (rule graph_unit_plural_of_table [where c = "''kilogram''"])
      (simp_all add: sample_measurements sample_plural)
  then have "(''kilograms'', 0) \<in> set (graph_unit_plural sample_resources ''kg'')"
    by (simp add: space_free_nbsp)
  from unit_plural_simple [OF this] show ?thesis by simp
qed

lemma not_minus_one_plural:
  assumes empty: "cardinal_graph cardinal deterministic [] = []"
    and sign: "\<And>q. cardinal_graph cardinal deterministic (CHR ''-'' # q) = []"
    and longer: "\<And>q r. x = q @ r \<Longrightarrow> q \<noteq> [] \<Longrightarrow> cardinal_graph cardinal deterministic (''1'' @ q) = []"
  shows "(y, w) \<notin> set (subgraph_cardinal_plural res cardinal deterministic (''-1'' @ x))"
proof
  assume "(y, w) \<in> set (subgraph_cardinal_plural res cardinal deterministic (''-1'' @ x))"
  then obtain sg q ws x' c wc where h: "''-1'' @ x = sg @ q @ ws @ x'" "sg = [] \<or> sg = ''-''"
    "q \<noteq> ''1''" "(c, wc) \<in> set (cardinal_graph cardinal deterministic q)"
    unfolding in_subgraph_cardinal_plural by blast
  from h(4) have ne: "cardinal_graph cardinal deterministic q \<noteq> []" by auto
  with empty have q: "q \<noteq> []" by auto
  from h(2) show False
  proof
    assume "sg = []"
    with h(1) q obtain q' where "q = CHR ''-'' # q'" by (cases q) auto
    with sign ne show False by simp
  next
    assume "sg = ''-''"
    with h(1) have e: "''1'' @ x = q @ ws @ x'" by simp
    with q obtain q' where q': "q = ''1'' @ q'" by (cases q) auto
    with h(3) have "q' \<noteq> []" by auto
    moreover from e q' have "x = q' @ (ws @ x')" by simp
    ultimately have "cardinal_graph cardinal deterministic (''1'' @ q') = []" by (rule longer [rotated])
    with ne q' show False by simp
  qed
qed

lemma minus_one_singular:
  \<open>(y, w) \<in> set (subgraph_cardinal_singular res (''-1'' @ x)) \<longleftrightarrow>
     (\<exists>ws x' up. x = ws @ x' \<and> (\<forall>c \<in> set ws. is_white_space c)
        \<and> (up, w) \<in> set (unit_singular res x')
        \<and> y = ''cardinal { negative: "true" integer: "one" } '' @ up)\<close>
  (is "?L \<longleftrightarrow> ?R")
proof
  assume ?L
  then obtain sg ws x' up where h: "''-1'' @ x = sg @ ''1'' @ ws @ x'" "sg = [] \<or> sg = ''-''"
      "\<forall>c \<in> set ws. is_white_space c" "(up, w) \<in> set (unit_singular res x')"
      \<open>y = ''cardinal { '' @ negative_field sg @ ''integer: "'' @ ''one'' @ ''"'' @ '' } '' @ up\<close>
    unfolding in_subgraph_cardinal_singular by blast
  from h(1,2) have sg: "sg = ''-''" by auto
  with h(1) have "x = ws @ x'" by simp
  moreover from h(5) sg have \<open>y = ''cardinal { negative: "true" integer: "one" } '' @ up\<close>
    by (simp add: negative_field_def)
  ultimately show ?R using h(3,4) by blast
next
  assume ?R
  then obtain ws x' up where h: "x = ws @ x'" "\<forall>c \<in> set ws. is_white_space c"
      "(up, w) \<in> set (unit_singular res x')"
      \<open>y = ''cardinal { negative: "true" integer: "one" } '' @ up\<close>
    by blast
  have "''-1'' @ x = ''-'' @ ''1'' @ ws @ x'" using h(1) by simp
  moreover have \<open>y = ''cardinal { '' @ negative_field ''-'' @ ''integer: "'' @ ''one'' @ ''"'' @ '' } '' @ up\<close>
    using h(4) by (simp add: negative_field_def)
  ultimately show ?L
    unfolding in_subgraph_cardinal_singular using h(2,3) by blast
qed

lemma graph_unit_from_table:
  "(u, w) \<in> set (graph_unit res s) \<Longrightarrow> \<exists>k m. (k, m) \<in> set (measurements_tsv res) \<and> u = space_to_nbsp m"
  unfolding in_graph_unit in_graph_unit_cased by blast

lemma sample_no_singular_kilograms:
  \<open>(''units: "kilograms"'', w) \<notin> set (unit_singular sample_resources x)\<close>
proof
  assume \<open>(''units: "kilograms"'', w) \<in> set (unit_singular sample_resources x)\<close>
  then obtain u where u: \<open>''units: "kilograms"'' = ''units: "'' @ u @ ''"''\<close>
    and c: "(\<exists>s1 s2 u1 u2 w1 w2. x = s1 @ s2 \<and> (u1, w1) \<in> set (graph_unit sample_resources s1)
            \<and> (u2, w2) \<in> set (optional_graph_unit2 sample_resources s2) \<and> u = u1 @ u2 \<and> w = w1 + w2)
         \<or> (u, w) \<in> set (graph_unit2 sample_resources x)"
    unfolding in_unit_singular by blast
  from u have uk: "u = ''kilograms''" by simp
  from c show False
  proof
    assume "\<exists>s1 s2 u1 u2 w1 w2. x = s1 @ s2 \<and> (u1, w1) \<in> set (graph_unit sample_resources s1)
            \<and> (u2, w2) \<in> set (optional_graph_unit2 sample_resources s2) \<and> u = u1 @ u2 \<and> w = w1 + w2"
    then obtain s1 s2 u1 u2 w1 w2 where h: "(u1, w1) \<in> set (graph_unit sample_resources s1)"
      "(u2, w2) \<in> set (optional_graph_unit2 sample_resources s2)" "u = u1 @ u2"
      by blast
    from h(2) have "u2 = [] \<or> (\<exists>p. u2 = NEMO_NON_BREAKING_SPACE @ p)"
      unfolding in_optional_graph_unit2 by blast
    moreover have "CHR 0xA0 \<notin> set u" using uk by simp
    ultimately have "u2 = []" using h(3) by (auto simp: NEMO_NON_BREAKING_SPACE_def)
    with h(3) uk have "u1 = ''kilograms''" by simp
    from graph_unit_from_table [OF h(1)] obtain k m
      where km: "(k, m) \<in> set (measurements_tsv sample_resources)" "u1 = space_to_nbsp m"
      by blast
    from km(2) \<open>u1 = ''kilograms''\<close> have "space_to_nbsp m = ''kilograms''" by simp
    with km(1) show False
      unfolding sample_measurements
      by (auto simp: space_to_nbsp_def NEMO_SPACE_def NEMO_NON_BREAKING_SPACE_def)
  next
    assume "(u, w) \<in> set (graph_unit2 sample_resources x)"
    then obtain v where "u = ''per'' @ NEMO_NON_BREAKING_SPACE @ v"
      unfolding in_graph_unit2 by blast
    with uk show False by simp
  qed
qed

lemma subgraph_cardinal_starts:
  "(y, w) \<in> set (subgraph_cardinal res cardinal deterministic s) \<Longrightarrow> \<exists>t. y = ''cardinal { '' @ t"
  unfolding subgraph_cardinal_def in_union_fst in_subgraph_cardinal_plural
    in_subgraph_cardinal_singular
  by blast

text \<open>
  C2. The plural of a unit: a surface form whose canonical unit is "degree Celsius" or
  "degree Fahrenheit" becomes "degrees Celsius" or "degrees Fahrenheit"; every other
  canonical unit goes through the singular-to-plural mapping, which the two degree units
  never reach. A surface form that only means "degree Celsius" has "degrees Celsius" as its
  only plural.
\<close>

theorem graph_unit_plural_degrees:
  "((y, w) \<in> set (graph_unit_plural res s) \<longleftrightarrow>
     (\<exists>c p. (c, 0) \<in> set (graph_unit_cased res s) \<and> c \<noteq> ''degree Celsius''
        \<and> c \<noteq> ''degree Fahrenheit'' \<and> (p, w) \<in> set (SINGULAR_TO_PLURAL res c)
        \<and> y = space_to_nbsp p)
     \<or> ((''degree Celsius'', 0) \<in> set (graph_unit_cased res s) \<and> y = ''degrees Celsius'' \<and> w = 0)
     \<or> ((''degree Fahrenheit'', 0) \<in> set (graph_unit_cased res s) \<and> y = ''degrees Fahrenheit''
          \<and> w = 0))
   \<and> ((\<forall>c v. (c, v) \<in> set (graph_unit_cased res s) \<longrightarrow> c = ''degree Celsius'') \<longrightarrow>
        set (graph_unit_plural res s) \<subseteq> {(''degrees Celsius'', 0)})"
proof -
  have ne: "''degree Fahrenheit'' \<noteq> ''degree Celsius''" by simp
  have "set (graph_unit_plural res s) \<subseteq> {(''degrees Celsius'', 0)}"
    if H: "\<forall>c v. (c, v) \<in> set (graph_unit_cased res s) \<longrightarrow> c = ''degree Celsius''"
  proof
    fix x assume x: "x \<in> set (graph_unit_plural res s)"
    obtain t v where tv: "x = (t, v)" by (cases x)
    from x tv have "(t, v) \<in> set (graph_unit_plural res s)" by simp
    then consider
      (other) c where "(c, 0) \<in> set (graph_unit_cased res s)" "c \<noteq> ''degree Celsius''"
    | (celsius) "t = ''degrees Celsius''" "v = 0"
    | (fahrenheit) "(''degree Fahrenheit'', 0) \<in> set (graph_unit_cased res s)"
      unfolding in_graph_unit_plural by blast
    then show "x \<in> {(''degrees Celsius'', 0)}"
    proof cases
      case other
      with H show ?thesis by blast
    next
      case celsius
      with tv show ?thesis by simp
    next
      case fahrenheit
      with H ne show ?thesis by blast
    qed
  qed
  then show ?thesis
    using in_graph_unit_plural [of y w res s] by blast
qed

theorem graph_unit_plural_degrees_examples:
  "set (graph_unit_plural sample_resources ''C'') = {(''degrees Celsius'', 0)}
   \<and> (''degree Celsiuses'', 0) \<notin> set (graph_unit_plural sample_resources ''C'')
   \<and> (''kilograms'', 0) \<in> set (graph_unit_plural sample_resources ''kg'')"
proof -
  have only: "\<forall>c v. (c, v) \<in> set (graph_unit_cased sample_resources ''C'') \<longrightarrow> c = ''degree Celsius''"
    by (simp add: sample_unit_C)
  have sub: "set (graph_unit_plural sample_resources ''C'') \<subseteq> {(''degrees Celsius'', 0)}"
    using graph_unit_plural_degrees [of _ _ sample_resources "''C''"] only by blast
  have "(''degree Celsius'', 0) \<in> set (graph_unit_cased sample_resources ''C'')"
    by (simp add: sample_unit_C)
  then have mem: "(''degrees Celsius'', 0) \<in> set (graph_unit_plural sample_resources ''C'')"
    using graph_unit_plural_degrees [of "''degrees Celsius''" 0 sample_resources "''C''"] by blast
  have "(''kilogram'', 0) \<in> set (graph_unit_cased sample_resources ''kg'')"
    unfolding in_graph_unit_cased sample_measurements by simp
  moreover have "(''kilograms'', 0) \<in> set (SINGULAR_TO_PLURAL sample_resources ''kilogram'')"
    by (simp add: sample_plural)
  moreover have "''kilograms'' = space_to_nbsp ''kilograms''"
    by (simp add: space_to_nbsp_def NEMO_SPACE_def)
  ultimately have "\<exists>c p. (c, 0) \<in> set (graph_unit_cased sample_resources ''kg'')
        \<and> c \<noteq> ''degree Celsius'' \<and> c \<noteq> ''degree Fahrenheit''
        \<and> (p, 0) \<in> set (SINGULAR_TO_PLURAL sample_resources c) \<and> ''kilograms'' = space_to_nbsp p"
    by (intro exI [of _ "''kilogram''"] exI [of _ "''kilograms''"]) simp
  then have kg: "(''kilograms'', 0) \<in> set (graph_unit_plural sample_resources ''kg'')"
    using graph_unit_plural_degrees [of "''kilograms''" 0 sample_resources "''kg''"] by blast
  have eq: "set (graph_unit_plural sample_resources ''C'') = {(''degrees Celsius'', 0)}"
    using sub mem by blast
  have "(''degree Celsiuses'', 0::rat) \<noteq> (''degrees Celsius'', 0)" by simp
  then have no: "(''degree Celsiuses'', 0) \<notin> set (graph_unit_plural sample_resources ''C'')"
    unfolding eq by blast
  from eq no kg show ?thesis by blast
qed

text \<open>
  C6. The per-unit transducer reads "/" and a unit, with any white space between them, and
  writes "per", the non-breaking space and the expanded unit; the bare per-unit branch reads
  "/" or "per" the same way. After a plural unit ("km/h") the per-unit part is joined to it
  by another non-breaking space. The non-breaking space is not the ordinary space, and the
  expanded unit contains no ordinary space either.
\<close>

theorem per_unit_non_breaking_space:
  \<open>((y, w) \<in> set (graph_unit2 res s) \<longleftrightarrow>
      (\<exists>ws x u. s = ''/'' @ ws @ x \<and> (\<forall>c \<in> set ws. is_white_space c)
        \<and> (u, w) \<in> set (graph_unit res x) \<and> y = ''per'' @ NEMO_NON_BREAKING_SPACE @ u))
   \<and> ((y, w) \<in> set (unit_graph res s) \<longleftrightarrow>
      (\<exists>p ws x u. s = p @ ws @ x \<and> (p = ''/'' \<or> p = ''per'') \<and> (\<forall>c \<in> set ws. is_white_space c)
        \<and> (u, w) \<in> set (graph_unit res x)
        \<and> y = (''cardinal { integer: "-" } units: "'' @ ''per'' @ NEMO_NON_BREAKING_SPACE @ u)
               @ ''" preserve_order: true''))
   \<and> ((u1, w1) \<in> set (graph_unit_plural res x1) \<longrightarrow> (\<forall>c \<in> set ws. is_white_space c) \<longrightarrow>
        (p, w2) \<in> set (graph_unit2 res r) \<longrightarrow>
        (''units: "'' @ (u1 @ NEMO_NON_BREAKING_SPACE @ p) @ ''"'', w1 + w2)
           \<in> set (unit_plural res (x1 @ ws @ r)))
   \<and> ((u, w) \<in> set (graph_unit res x) \<longrightarrow> CHR '' '' \<notin> set u)
   \<and> NEMO_NON_BREAKING_SPACE \<noteq> NEMO_SPACE \<and> CHR '' '' \<notin> set NEMO_NON_BREAKING_SPACE\<close>
proof -
  have a: "(u, w) \<in> set (graph_unit res x) \<longrightarrow> CHR '' '' \<notin> set u"
    unfolding in_graph_unit using no_space_after_nbsp by blast
  have b: "NEMO_NON_BREAKING_SPACE \<noteq> NEMO_SPACE \<and> CHR '' '' \<notin> set NEMO_NON_BREAKING_SPACE"
    by (simp add: NEMO_NON_BREAKING_SPACE_def NEMO_SPACE_def)
  show ?thesis
    using in_graph_unit2 [of y w res s] in_unit_graph [of y w res s]
      unit_plural_per [of u1 w1 res x1 ws p w2 r] a b
    by blast
qed

theorem per_unit_non_breaking_space_examples:
  \<open>(''per'' @ [CHR 0xA0] @ ''hour'', 0) \<in> set (graph_unit2 sample_resources ''/h'')
   \<and> (''units: "'' @ (''kilometers'' @ [CHR 0xA0] @ ''per'' @ [CHR 0xA0] @ ''hour'') @ ''"'', 0)
        \<in> set (unit_plural sample_resources ''km/h'')
   \<and> ((''cardinal { integer: "-" } units: "'' @ ''per'' @ [CHR 0xA0] @ ''hour'')
               @ ''" preserve_order: true'', 0) \<in> set (unit_graph sample_resources ''per h'')\<close>
proof -
  note inst = per_unit_non_breaking_space [where res = sample_resources]
  have h0: "(space_to_nbsp ''hour'', 0) \<in> set (graph_unit sample_resources ''h'')"
    by (rule graph_unit_of_table) (simp add: sample_measurements)
  have h: "(''hour'', 0) \<in> set (graph_unit sample_resources ''h'')"
    using h0 by (simp add: space_free_nbsp)
  have km0: "(space_to_nbsp ''kilometers'', 0) \<in> set (graph_unit_plural sample_resources ''km'')"
    by (rule graph_unit_plural_of_table [where c = "''kilometer''"])
      (simp_all add: sample_measurements sample_plural)
  have km: "(''kilometers'', 0) \<in> set (graph_unit_plural sample_resources ''km'')"
    using km0 by (simp add: space_free_nbsp)
  have "\<exists>ws x u. ''/h'' = ''/'' @ ws @ x \<and> (\<forall>c \<in> set ws. is_white_space c)
        \<and> (u, 0) \<in> set (graph_unit sample_resources x)
        \<and> ''per'' @ NEMO_NON_BREAKING_SPACE @ ''hour'' = ''per'' @ NEMO_NON_BREAKING_SPACE @ u"
    using h by (intro exI [of _ "[]"] exI [of _ "''h''"] exI [of _ "''hour''"]) simp
  then have 1: "(''per'' @ NEMO_NON_BREAKING_SPACE @ ''hour'', 0) \<in> set (graph_unit2 sample_resources ''/h'')"
    using inst [of "''per'' @ NEMO_NON_BREAKING_SPACE @ ''hour''" 0 "''/h''"] by blast
  have 2: \<open>(''units: "'' @ (''kilometers'' @ NEMO_NON_BREAKING_SPACE @ ''per'' @ NEMO_NON_BREAKING_SPACE @ ''hour'') @ ''"'', 0 + 0)
        \<in> set (unit_plural sample_resources (''km'' @ [] @ ''/h''))\<close>
    using inst [of _ _ _ "''kilometers''" 0 "''km''" "[]" "''per'' @ NEMO_NON_BREAKING_SPACE @ ''hour''" 0 "''/h''"]
      km 1 by simp
  have \<open>\<exists>p ws x u. ''per h'' = p @ ws @ x \<and> (p = ''/'' \<or> p = ''per'') \<and> (\<forall>c \<in> set ws. is_white_space c)
        \<and> (u, 0) \<in> set (graph_unit sample_resources x)
        \<and> (''cardinal { integer: "-" } units: "'' @ ''per'' @ NEMO_NON_BREAKING_SPACE @ ''hour'')
               @ ''" preserve_order: true''
          = (''cardinal { integer: "-" } units: "'' @ ''per'' @ NEMO_NON_BREAKING_SPACE @ u)
               @ ''" preserve_order: true''\<close>
    using h
    by (intro exI [of _ "''per''"] exI [of _ "'' ''"] exI [of _ "''h''"] exI [of _ "''hour''"])
      (simp add: is_white_space_def)
  then have 3: \<open>((''cardinal { integer: "-" } units: "'' @ ''per'' @ NEMO_NON_BREAKING_SPACE @ ''hour'')
               @ ''" preserve_order: true'', 0) \<in> set (unit_graph sample_resources ''per h'')\<close>
    using inst [of \<open>(''cardinal { integer: "-" } units: "'' @ ''per'' @ NEMO_NON_BREAKING_SPACE @ ''hour'')
               @ ''" preserve_order: true''\<close> 0 "''per h''"] by blast
  from 1 2 3 show ?thesis
    by (simp add: NEMO_NON_BREAKING_SPACE_def)
qed

text \<open>
  C1. A quantity with a unit, as the cardinal branch reads it: an optional sign, the
  quantity, white space, the unit. When the quantity string is "1" the integer is "one" and
  the unit is read by the singular unit grammar; when it is anything else the integer is the
  cardinal's spelling of it and the unit is read by the plural unit grammar. These are all
  the paths of the branch.
\<close>

theorem subgraph_cardinal_singular_plural:
  \<open>(y, w) \<in> set (subgraph_cardinal res cardinal deterministic s) \<longleftrightarrow>
     (\<exists>sg q ws x c wc up wu. s = sg @ q @ ws @ x \<and> (sg = [] \<or> sg = ''-'')
        \<and> (\<forall>c \<in> set ws. is_white_space c)
        \<and> (if q = ''1'' then c = ''one'' \<and> wc = 0 \<and> (up, wu) \<in> set (unit_singular res x)
            else (c, wc) \<in> set (cardinal_graph cardinal deterministic q)
                 \<and> (up, wu) \<in> set (unit_plural res x))
        \<and> y = ''cardinal { '' @ negative_field sg @ ''integer: "'' @ c @ ''"'' @ '' } '' @ up
        \<and> w = wc + wu)\<close>
  (is "?L \<longleftrightarrow> ?R")
proof
  assume ?L
  then consider (plural) "(y, w) \<in> set (subgraph_cardinal_plural res cardinal deterministic s)"
    | (singular) "(y, w) \<in> set (subgraph_cardinal_singular res s)"
    unfolding subgraph_cardinal_def in_union_fst by blast
  then show ?R
  proof cases
    case plural
    then obtain sg q ws x c wc up wu where h: "s = sg @ q @ ws @ x" "sg = [] \<or> sg = ''-''"
      "q \<noteq> ''1''" "(c, wc) \<in> set (cardinal_graph cardinal deterministic q)"
      "\<forall>c \<in> set ws. is_white_space c" "(up, wu) \<in> set (unit_plural res x)"
      \<open>y = ''cardinal { '' @ negative_field sg @ ''integer: "'' @ c @ ''"'' @ '' } '' @ up\<close>
      "w = wc + wu"
      unfolding in_subgraph_cardinal_plural by blast
    from h(3,4,6) have "if q = ''1'' then c = ''one'' \<and> wc = 0 \<and> (up, wu) \<in> set (unit_singular res x)
            else (c, wc) \<in> set (cardinal_graph cardinal deterministic q)
                 \<and> (up, wu) \<in> set (unit_plural res x)"
      by simp
    with h(1,2,5,7,8) show ?R by blast
  next
    case singular
    then obtain sg ws x up where h: "s = sg @ ''1'' @ ws @ x" "sg = [] \<or> sg = ''-''"
      "\<forall>c \<in> set ws. is_white_space c" "(up, w) \<in> set (unit_singular res x)"
      \<open>y = ''cardinal { '' @ negative_field sg @ ''integer: "'' @ ''one'' @ ''"'' @ '' } '' @ up\<close>
      unfolding in_subgraph_cardinal_singular by blast
    have "if ''1'' = ''1'' then ''one'' = ''one'' \<and> (0::rat) = 0 \<and> (up, w) \<in> set (unit_singular res x)
            else (''one'', 0) \<in> set (cardinal_graph cardinal deterministic ''1'')
                 \<and> (up, w) \<in> set (unit_plural res x)"
      using h(4) by simp
    moreover have "w = 0 + w" by simp
    ultimately show ?R using h(1,2,3,5) by blast
  qed
next
  assume ?R
  then obtain sg q ws x c wc up wu where h: "s = sg @ q @ ws @ x" "sg = [] \<or> sg = ''-''"
      "\<forall>c \<in> set ws. is_white_space c"
      "if q = ''1'' then c = ''one'' \<and> wc = 0 \<and> (up, wu) \<in> set (unit_singular res x)
            else (c, wc) \<in> set (cardinal_graph cardinal deterministic q)
                 \<and> (up, wu) \<in> set (unit_plural res x)"
      \<open>y = ''cardinal { '' @ negative_field sg @ ''integer: "'' @ c @ ''"'' @ '' } '' @ up\<close>
      "w = wc + wu"
    by blast
  show ?L
  proof (cases "q = ''1''")
    case True
    with h(4) have "c = ''one''" "wc = 0" "(up, wu) \<in> set (unit_singular res x)" by simp_all
    with h True have "s = sg @ ''1'' @ ws @ x" "(up, w) \<in> set (unit_singular res x)"
      \<open>y = ''cardinal { '' @ negative_field sg @ ''integer: "'' @ ''one'' @ ''"'' @ '' } '' @ up\<close>
      by simp_all
    with h(2,3) have "(y, w) \<in> set (subgraph_cardinal_singular res s)"
      unfolding in_subgraph_cardinal_singular by blast
    then show ?thesis unfolding subgraph_cardinal_def in_union_fst by blast
  next
    case False
    with h(4) have "(c, wc) \<in> set (cardinal_graph cardinal deterministic q)"
      "(up, wu) \<in> set (unit_plural res x)" by simp_all
    with h False have "(y, w) \<in> set (subgraph_cardinal_plural res cardinal deterministic s)"
      unfolding in_subgraph_cardinal_plural by blast
    then show ?thesis unfolding subgraph_cardinal_def in_union_fst by blast
  qed
qed

theorem subgraph_cardinal_singular_plural_examples:
  \<open>(''cardinal { integer: "one" } units: "kilogram"'', 0)
      \<in> set (subgraph_cardinal sample_resources sample_cardinal True ''1kg'')
   \<and> (''cardinal { integer: "two" } units: "kilograms"'', 0)
      \<in> set (subgraph_cardinal sample_resources sample_cardinal True ''2kg'')\<close>
proof -
  note inst = subgraph_cardinal_singular_plural [where res = sample_resources
      and cardinal = sample_cardinal and deterministic = True]
  have \<open>\<exists>sg q ws x c wc up wu. ''1kg'' = sg @ q @ ws @ x \<and> (sg = [] \<or> sg = ''-'')
        \<and> (\<forall>c \<in> set ws. is_white_space c)
        \<and> (if q = ''1'' then c = ''one'' \<and> wc = 0 \<and> (up, wu) \<in> set (unit_singular sample_resources x)
            else (c, wc) \<in> set (cardinal_graph sample_cardinal True q)
                 \<and> (up, wu) \<in> set (unit_plural sample_resources x))
        \<and> ''cardinal { integer: "one" } units: "kilogram"''
            = ''cardinal { '' @ negative_field sg @ ''integer: "'' @ c @ ''"'' @ '' } '' @ up
        \<and> (0::rat) = wc + wu\<close>
    by (rule exI [of _ "[]"], rule exI [of _ "''1''"], rule exI [of _ "[]"], rule exI [of _ "''kg''"], rule exI [of _ "''one''"], rule exI [of _ 0], rule exI [of _ \<open>''units: "kilogram"''\<close>], rule exI [of _ 0],
      simp add: negative_field_def sample_kilogram)
  then have 1: \<open>(''cardinal { integer: "one" } units: "kilogram"'', 0)
      \<in> set (subgraph_cardinal sample_resources sample_cardinal True ''1kg'')\<close>
    unfolding inst .
  have \<open>\<exists>sg q ws x c wc up wu. ''2kg'' = sg @ q @ ws @ x \<and> (sg = [] \<or> sg = ''-'')
        \<and> (\<forall>c \<in> set ws. is_white_space c)
        \<and> (if q = ''1'' then c = ''one'' \<and> wc = 0 \<and> (up, wu) \<in> set (unit_singular sample_resources x)
            else (c, wc) \<in> set (cardinal_graph sample_cardinal True q)
                 \<and> (up, wu) \<in> set (unit_plural sample_resources x))
        \<and> ''cardinal { integer: "two" } units: "kilograms"''
            = ''cardinal { '' @ negative_field sg @ ''integer: "'' @ c @ ''"'' @ '' } '' @ up
        \<and> (0::rat) = wc + wu\<close>
    by (rule exI [of _ "[]"], rule exI [of _ "''2''"], rule exI [of _ "[]"], rule exI [of _ "''kg''"], rule exI [of _ "''two''"], rule exI [of _ 0], rule exI [of _ \<open>''units: "kilograms"''\<close>], rule exI [of _ 0],
      simp add: negative_field_def sample_cardinal_graph sample_numbers_def sample_kilograms)
  then have 2: \<open>(''cardinal { integer: "two" } units: "kilograms"'', 0)
      \<in> set (subgraph_cardinal sample_resources sample_cardinal True ''2kg'')\<close>
    unfolding inst .
  from 1 2 show ?thesis by blast
qed

text \<open>
  C10. The quantity "1" is excluded from the plural branch after the sign has been read.
  Let the cardinal read neither the empty string nor a string that begins with "-", and let
  it not read on past the "1" into what follows. Then for the input "-1" followed by a
  unit, the paths of the cardinal branch are exactly those of the singular form: the sign
  gives negative: "true", the integer is "one", and the unit is read by the singular unit
  grammar, after optional white space.
\<close>

theorem minus_one_takes_singular_branch:
  assumes "cardinal_graph cardinal deterministic [] = []"
    and "\<And>q. cardinal_graph cardinal deterministic (CHR ''-'' # q) = []"
    and "\<And>q r. x = q @ r \<Longrightarrow> q \<noteq> [] \<Longrightarrow> cardinal_graph cardinal deterministic (''1'' @ q) = []"
  shows \<open>(y, w) \<in> set (subgraph_cardinal res cardinal deterministic (''-1'' @ x)) \<longleftrightarrow>
     (\<exists>ws x' up. x = ws @ x' \<and> (\<forall>c \<in> set ws. is_white_space c)
        \<and> (up, w) \<in> set (unit_singular res x')
        \<and> y = ''cardinal { negative: "true" integer: "one" } '' @ up)\<close>
proof -
  have "(y, w) \<notin> set (subgraph_cardinal_plural res cardinal deterministic (''-1'' @ x))"
    using assms by (rule not_minus_one_plural)
  then have "(y, w) \<in> set (subgraph_cardinal res cardinal deterministic (''-1'' @ x)) \<longleftrightarrow>
      (y, w) \<in> set (subgraph_cardinal_singular res (''-1'' @ x))"
    unfolding subgraph_cardinal_def in_union_fst by blast
  then show ?thesis
    unfolding minus_one_singular .
qed

theorem minus_one_takes_singular_branch_example:
  \<open>(''cardinal { negative: "true" integer: "one" } units: "kilogram"'', 0)
      \<in> set (subgraph_cardinal sample_resources sample_cardinal True ''-1kg'')
   \<and> (''cardinal { negative: "true" integer: "one" } units: "kilograms"'', 0)
      \<notin> set (subgraph_cardinal sample_resources sample_cardinal True ''-1kg'')\<close>
proof -
  have e: "cardinal_graph sample_cardinal True [] = []"
    by (simp add: cardinal_graph_def sample_cardinal_def string_map_def sample_numbers_def)
  have m: "cardinal_graph sample_cardinal True (CHR ''-'' # q) = []" for q
    by (simp add: cardinal_graph_def sample_cardinal_def string_map_def sample_numbers_def)
  have l: "cardinal_graph sample_cardinal True (''1'' @ q) = []" if "''kg'' = q @ r" "q \<noteq> []" for q r
  proof -
    from that obtain q' where "q = CHR ''k'' # q'" by (cases q) auto
    then show ?thesis
      by (simp add: cardinal_graph_def sample_cardinal_def string_map_def sample_numbers_def)
  qed
  have inst: \<open>(y, 0) \<in> set (subgraph_cardinal sample_resources sample_cardinal True (''-1'' @ ''kg''))
      \<longleftrightarrow> (\<exists>ws x' up. ''kg'' = ws @ x' \<and> (\<forall>c \<in> set ws. is_white_space c)
        \<and> (up, 0) \<in> set (unit_singular sample_resources x')
        \<and> y = ''cardinal { negative: "true" integer: "one" } '' @ up)\<close> for y
    by (rule minus_one_takes_singular_branch [OF e m]) (rule l)
  have \<open>\<exists>ws x' up. ''kg'' = ws @ x' \<and> (\<forall>c \<in> set ws. is_white_space c)
        \<and> (up, 0) \<in> set (unit_singular sample_resources x')
        \<and> ''cardinal { negative: "true" integer: "one" } units: "kilogram"''
            = ''cardinal { negative: "true" integer: "one" } '' @ up\<close>
    by (rule exI [of _ "[]"], rule exI [of _ "''kg''"], rule exI [of _ \<open>''units: "kilogram"''\<close>],
        simp add: sample_kilogram)
  then have 1: \<open>(''cardinal { negative: "true" integer: "one" } units: "kilogram"'', 0)
      \<in> set (subgraph_cardinal sample_resources sample_cardinal True (''-1'' @ ''kg''))\<close>
    by (rule inst [THEN iffD2])
  have 2: \<open>(''cardinal { negative: "true" integer: "one" } units: "kilograms"'', 0)
      \<notin> set (subgraph_cardinal sample_resources sample_cardinal True (''-1'' @ ''kg''))\<close>
  proof
    assume \<open>(''cardinal { negative: "true" integer: "one" } units: "kilograms"'', 0)
      \<in> set (subgraph_cardinal sample_resources sample_cardinal True (''-1'' @ ''kg''))\<close>
    then have \<open>\<exists>ws x' up. ''kg'' = ws @ x' \<and> (\<forall>c \<in> set ws. is_white_space c)
        \<and> (up, 0) \<in> set (unit_singular sample_resources x')
        \<and> ''cardinal { negative: "true" integer: "one" } units: "kilograms"''
            = ''cardinal { negative: "true" integer: "one" } '' @ up\<close>
      by (rule inst [THEN iffD1])
    then obtain x' up where "(up, 0) \<in> set (unit_singular sample_resources x')"
      \<open>''cardinal { negative: "true" integer: "one" } units: "kilograms"''
            = ''cardinal { negative: "true" integer: "one" } '' @ up\<close>
      by blast
    then have \<open>(''units: "kilograms"'', 0) \<in> set (unit_singular sample_resources x')\<close> by simp
    with sample_no_singular_kilograms show False by blast
  qed
  from 1 2 show ?thesis by simp
qed

text \<open>
  C5, at the input of the docstring. For "-12kg" the cardinal branch writes the negative
  field inside the cardinal block, after "cardinal {"; it has no path whose output begins
  with the negative field, as the docstring of the class has it.
\<close>

theorem negative_field_inside_cardinal_block:
  \<open>(''cardinal { negative: "true" integer: "twelve" } units: "kilograms"'', 0)
      \<in> set (subgraph_cardinal sample_resources sample_cardinal True ''-12kg'')
   \<and> (\<forall>w. (''negative: "true" cardinal { integer: "twelve" } units: "kilograms"'', w)
      \<notin> set (subgraph_cardinal sample_resources sample_cardinal True ''-12kg''))\<close>
proof -
  have \<open>\<exists>sg q ws x c wc up wu. ''-12kg'' = sg @ q @ ws @ x \<and> (sg = [] \<or> sg = ''-'') \<and> q \<noteq> ''1''
        \<and> (c, wc) \<in> set (cardinal_graph sample_cardinal True q)
        \<and> (\<forall>c \<in> set ws. is_white_space c) \<and> (up, wu) \<in> set (unit_plural sample_resources x)
        \<and> ''cardinal { negative: "true" integer: "twelve" } units: "kilograms"''
            = ''cardinal { '' @ negative_field sg @ ''integer: "'' @ c @ ''"'' @ '' } '' @ up
        \<and> (0::rat) = wc + wu\<close>
    by (rule exI [of _ "''-''"], rule exI [of _ "''12''"], rule exI [of _ "[]"],
        rule exI [of _ "''kg''"], rule exI [of _ "''twelve''"], rule exI [of _ 0],
        rule exI [of _ \<open>''units: "kilograms"''\<close>], rule exI [of _ 0],
        simp add: negative_field_def sample_cardinal_graph sample_numbers_def sample_kilograms)
  then have \<open>(''cardinal { negative: "true" integer: "twelve" } units: "kilograms"'', 0)
      \<in> set (subgraph_cardinal_plural sample_resources sample_cardinal True ''-12kg'')\<close>
    by (rule in_subgraph_cardinal_plural [THEN iffD2])
  then have 1: \<open>(''cardinal { negative: "true" integer: "twelve" } units: "kilograms"'', 0)
      \<in> set (subgraph_cardinal sample_resources sample_cardinal True ''-12kg'')\<close>
    unfolding subgraph_cardinal_def in_union_fst by blast
  have 2: \<open>(''negative: "true" cardinal { integer: "twelve" } units: "kilograms"'', w)
      \<notin> set (subgraph_cardinal sample_resources sample_cardinal True ''-12kg'')\<close> for w
  proof
    assume \<open>(''negative: "true" cardinal { integer: "twelve" } units: "kilograms"'', w)
      \<in> set (subgraph_cardinal sample_resources sample_cardinal True ''-12kg'')\<close>
    from subgraph_cardinal_starts [OF this] show False by simp
  qed
  from 1 2 show ?thesis by blast
qed

end
